theory Spec2Isabelle
  imports Main "HOL-Library.Signed_Division" "HOL-Library.AList"
begin

unbundle bit_operations_syntax

section \<open>JavaScript values used by the indexer\<close>

text \<open>
  A JS \<open>bigint\<close> is an unbounded integer: it is modelled as \<^typ>\<open>int\<close>. On \<open>bigint\<close>,
  \<open>&\<close>, \<open>|\<close>, \<open>>>\<close> and \<open><<\<close> act on the infinite two's complement representation, which is
  what \<open>AND\<close>, \<open>OR\<close>, \<open>drop_bit\<close> and \<open>push_bit\<close> do on \<^typ>\<open>int\<close>. \<open>/\<close> and \<open>%\<close> truncate
  towards zero (\<open>sdiv\<close>, \<open>smod\<close>).
\<close>

subsection \<open>Decimal strings: \<open>toString()\<close> and \<open>BigInt(string)\<close>\<close>

definition digit_char :: "nat \<Rightarrow> char" where
  "digit_char d = char_of (48 + d)"

function toString_nat :: "nat \<Rightarrow> string" where
  "toString_nat n =
     (if n < 10 then [digit_char n]
      else toString_nat (n div 10) @ [digit_char (n mod 10)])"
  by pat_completeness auto
termination
  by (relation "measure (\<lambda>n. n)") auto

declare toString_nat.simps [simp del]

text \<open>\<open>x.toString()\<close> for a bigint \<open>x\<close>: decimal digits, with a leading minus sign when negative.\<close>

definition toString_bigint :: "int \<Rightarrow> string" where
  "toString_bigint i =
     (if i < 0 then CHR ''-'' # toString_nat (nat (- i)) else toString_nat (nat i))"

definition is_digit :: "char \<Rightarrow> bool" where
  "is_digit c = (48 \<le> (of_char c :: nat) \<and> (of_char c :: nat) \<le> 57)"

definition digit_val :: "char \<Rightarrow> nat" where
  "digit_val c = of_char c - 48"

definition digits_value :: "string \<Rightarrow> nat" where
  "digits_value s = foldl (\<lambda>a c. 10 * a + digit_val c) 0 s"

text \<open>
  \<open>BigInt(s)\<close> for a string \<open>s\<close>. The decimal syntax is modelled: the empty string is \<open>0n\<close>, an
  optional minus sign is followed by one or more digits. \<open>None\<close> is the \<open>SyntaxError\<close> that JS
  throws. (JS also trims white space and accepts a plus sign and radix prefixes; no caller
  modelled here produces such strings, and on them this model answers \<open>None\<close>.)
\<close>

definition BigInt_string :: "string \<Rightarrow> int option" where
  "BigInt_string s =
     (case s of
        [] \<Rightarrow> Some 0
      | c # r \<Rightarrow>
          if c = CHR ''-'' then
            (if r \<noteq> [] \<and> list_all is_digit r then Some (- int (digits_value r)) else None)
          else if list_all is_digit s then Some (int (digits_value s)) else None)"

section \<open>128-bit balances as two signed 64-bit halves (\<open>src/src/lib/utils.ts\<close>)\<close>

definition MAX_64_UNSIGNED :: int where
  "MAX_64_UNSIGNED = 18446744073709551615"

definition MAX_64_SIGNED :: int where
  "MAX_64_SIGNED = 9223372036854775807"

record parts =
  balance_0 :: string
  balance_1 :: string

definition convertAmountToParts :: "int \<Rightarrow> parts" where
  "convertAmountToParts amount =
     (let lower64 = amount AND MAX_64_UNSIGNED;
          upper64 = (drop_bit 64 amount) AND MAX_64_UNSIGNED;
          lower64 = (if lower64 > MAX_64_SIGNED then lower64 - (MAX_64_UNSIGNED + 1) else lower64);
          upper64 = (if upper64 > MAX_64_SIGNED then upper64 - (MAX_64_UNSIGNED + 1) else upper64)
      in \<lparr> balance_0 = toString_bigint lower64, balance_1 = toString_bigint upper64 \<rparr>)"

text \<open>
  \<open>convertPartsToAmount(balance_0, balance_1)\<close> on two strings; \<open>None\<close> when \<open>BigInt\<close> throws.
\<close>

definition convertPartsToAmount :: "string \<Rightarrow> string \<Rightarrow> int option" where
  "convertPartsToAmount b0s b1s =
     (case BigInt_string b0s of
        None \<Rightarrow> None
      | Some b0 \<Rightarrow>
          (case BigInt_string b1s of
             None \<Rightarrow> None
           | Some b1 \<Rightarrow>
               (let b0 = (if b0 < 0 then b0 + (MAX_64_UNSIGNED + 1) else b0);
                    b1 = (if b1 < 0 then b1 + (MAX_64_UNSIGNED + 1) else b1)
                in Some ((push_bit 64 b1) OR b0))))"


section \<open>JS numbers, \<open>parseInt\<close> and \<open>split\<close>\<close>

text \<open>
  A JS \<open>number\<close> that holds a block height, an index or a database id is an integer far below
  \<open>2^53\<close>; the two special values that the mint window arithmetic can produce are kept apart.
\<close>

datatype jsnum = Num int | NaN | Infinity

text \<open>\<open>a === b\<close> on numbers: \<open>NaN\<close> equals nothing.\<close>

fun js_strict_eq :: "jsnum \<Rightarrow> jsnum \<Rightarrow> bool" where
  "js_strict_eq (Num a) (Num b) = (a = b)"
| "js_strict_eq Infinity Infinity = True"
| "js_strict_eq _ _ = False"

fun js_add :: "jsnum \<Rightarrow> jsnum \<Rightarrow> jsnum" where
  "js_add (Num a) (Num b) = Num (a + b)"
| "js_add NaN _ = NaN"
| "js_add _ NaN = NaN"
| "js_add _ _ = Infinity"

text \<open>\<open>a > b\<close> and \<open>a < b\<close>: every comparison with \<open>NaN\<close> is false.\<close>

fun js_gt :: "jsnum \<Rightarrow> jsnum \<Rightarrow> bool" where
  "js_gt (Num a) (Num b) = (a > b)"
| "js_gt Infinity (Num b) = True"
| "js_gt _ _ = False"

fun js_lt :: "jsnum \<Rightarrow> jsnum \<Rightarrow> bool" where
  "js_lt (Num a) (Num b) = (a < b)"
| "js_lt (Num a) Infinity = True"
| "js_lt _ _ = False"

fun Math_max :: "jsnum \<Rightarrow> jsnum \<Rightarrow> jsnum" where
  "Math_max (Num a) (Num b) = Num (max a b)"
| "Math_max NaN _ = NaN"
| "Math_max _ NaN = NaN"
| "Math_max _ _ = Infinity"

fun Math_min :: "jsnum \<Rightarrow> jsnum \<Rightarrow> jsnum" where
  "Math_min (Num a) (Num b) = Num (min a b)"
| "Math_min NaN _ = NaN"
| "Math_min _ NaN = NaN"
| "Math_min (Num a) Infinity = Num a"
| "Math_min Infinity (Num b) = Num b"
| "Math_min Infinity Infinity = Infinity"

text \<open>
  \<open>parseInt(s)\<close> on a string: the value of the longest prefix of decimal digits, \<open>NaN\<close> when
  there is none. (Leading white space, a sign and the \<open>0x\<close> prefix, which JS also reads, do not
  occur in the ids \<open>block:tx\<close> this is applied to.)
\<close>

definition parseInt_string :: "string \<Rightarrow> jsnum" where
  "parseInt_string s =
     (let ds = takeWhile is_digit s in if ds = [] then NaN else Num (int (digits_value ds)))"

text \<open>\<open>s.split(":")\<close>.\<close>

fun split_colon :: "string \<Rightarrow> string list" where
  "split_colon [] = [[]]"
| "split_colon (c # cs) =
     (if c = CHR '':'' then [] # split_colon cs
      else (case split_colon cs of [] \<Rightarrow> [[c]] | w # ws \<Rightarrow> (c # w) # ws))"

text \<open>The template literal \<open>`${block}:${txIndex}`\<close> on two integer numbers.\<close>

definition dune_id_of :: "int \<Rightarrow> int \<Rightarrow> string" where
  "dune_id_of block txIndex = toString_bigint block @ '':'' @ toString_bigint txIndex"

section \<open>Thrown errors\<close>

text \<open>
  A \<open>throw\<close> is the left summand of a result: the two built-in errors that the functions below
  can raise, and \<open>new Error(message)\<close>.
\<close>

datatype error = TypeError | RangeError | Error string


section \<open>Amounts in BTC: the doubles behind \<open>value * 1e8\<close>\<close>

text \<open>
  The \<open>value\<close> of a transaction output is a JS \<open>number\<close>: an IEEE 754 double. \<open>Finite m e\<close>
  stands for the number \<open>m * 2^e\<close>; the finite doubles are the numbers that can be written so
  with \<open>\<bar>m\<bar> < 2^53\<close> and \<open>-1074 \<le> e \<le> 971\<close>. \<open>NotFinite\<close> stands for \<open>NaN\<close>, \<open>Infinity\<close> and
  \<open>-Infinity\<close>, which the operations below do not tell apart: each of them stays not finite
  under \<open>* 1e8\<close>, \<open>Math.floor\<close> and \<open>Math.round\<close>, and \<open>BigInt\<close> throws a \<open>RangeError\<close> on it.
\<close>

datatype float64 = Finite int int | NotFinite

text \<open>The number of binary digits of a natural number.\<close>

fun bit_length :: "nat \<Rightarrow> nat" where
  "bit_length n = (if n = 0 then 0 else Suc (bit_length (n div 2)))"

declare bit_length.simps [simp del]

text \<open>
  The double nearest to \<open>M * 2^E\<close>, ties to the even significand (the rounding of every
  arithmetic operation of JS), for \<open>-1074 \<le> E\<close>: the significand is cut to 53 binary digits,
  which drops \<open>s\<close> digits of remainder \<open>r\<close>. A result of \<open>2^1024\<close> or more overflows to an
  infinity.
\<close>

definition round_to_double :: "int \<Rightarrow> int \<Rightarrow> float64" where
  "round_to_double M E =
     (let n = bit_length (nat \<bar>M\<bar>);
          s = n - 53;
          q = \<bar>M\<bar> div 2 ^ s;
          r = \<bar>M\<bar> mod 2 ^ s;
          q' = (if 2 * r > 2 ^ s \<or> (2 * r = 2 ^ s \<and> odd q) then q + 1 else q)
      in if int (bit_length (nat q')) + E + int s > 1024 then NotFinite
         else Finite (sgn M * q') (E + int s))"

text \<open>
  \<open>x * 1e8\<close>: the exact product, rounded. \<open>1e8\<close> is the integer \<open>100000000\<close>, itself a double.
\<close>

definition times_1e8 :: "float64 \<Rightarrow> float64" where
  "times_1e8 x =
     (case x of
        NotFinite \<Rightarrow> NotFinite
      | Finite m e \<Rightarrow> round_to_double (m * 100000000) e)"

text \<open>\<open>Math.floor(x)\<close>: the greatest integer not above \<open>x\<close>.\<close>

definition Math_floor :: "float64 \<Rightarrow> float64" where
  "Math_floor x =
     (case x of
        NotFinite \<Rightarrow> NotFinite
      | Finite m e \<Rightarrow> Finite (if 0 \<le> e then m * 2 ^ nat e else m div 2 ^ nat (- e)) 0)"

text \<open>\<open>Math.round(x)\<close>: the integer nearest to \<open>x\<close>, a half going up, that is \<open>floor(x + 1/2)\<close>.\<close>

definition Math_round :: "float64 \<Rightarrow> float64" where
  "Math_round x =
     (case x of
        NotFinite \<Rightarrow> NotFinite
      | Finite m e \<Rightarrow>
          Finite (if 0 \<le> e then m * 2 ^ nat e
                  else (2 * m + 2 ^ nat (- e)) div 2 ^ (nat (- e) + 1)) 0)"

text \<open>\<open>BigInt(x)\<close> on a number: a \<open>RangeError\<close> unless \<open>x\<close> is an integer.\<close>

definition BigInt_number :: "float64 \<Rightarrow> error + int" where
  "BigInt_number x =
     (case x of
        NotFinite \<Rightarrow> Inl RangeError
      | Finite m e \<Rightarrow>
          if 0 \<le> e then Inr (m * 2 ^ nat e)
          else if m mod 2 ^ nat (- e) = 0 then Inr (m div 2 ^ nat (- e))
          else Inl RangeError)"


section \<open>Constants (\<open>src/unnamed/part_002\<close>)\<close>

text \<open>\<open>GENESIS_BLOCK\<close> is read from the environment; its default is used.\<close>

definition GENESIS_BLOCK :: int where
  "GENESIS_BLOCK = 840000"

definition UNLOCK_INTERVAL :: int where
  "UNLOCK_INTERVAL = 17500"

definition INITIAL_AVAILABLE :: int where
  "INITIAL_AVAILABLE = 13"

section \<open>Data model\<close>

text \<open>
  \<open>BigDict = Record<string, bigint>\<close>: a JS object keyed by \<open>dune_protocol_id\<close>. Keys of the
  form \<open>block:tx\<close> are enumerated in insertion order, and an assignment to an existing key
  keeps its place: an association list with \<^const>\<open>map_of\<close> for reading and
  \<^const>\<open>AList.update\<close> for writing. A JS object holds each key once
  (\<open>distinct (map fst d)\<close>).
\<close>

type_synonym BigDict = "(string \<times> int) list"

record IndexerUtxo =
  utxo_index :: string
  address_id :: int
  value_sats :: string
  transaction_id :: int
  vout_index :: nat
  block_created :: int
  block_spent :: "int option"
  transaction_spent_id :: "int option"
  dune_balances :: "BigDict option"

text \<open>
  The decoded payload, \<open>IDunestoneIndexed\<close> of \<open>src/src/lib/dunestone.ts\<close>: the amount fields
  (\<open>amount\<close>, \<open>cap\<close>, \<open>premine\<close>) are bigints, the others numbers or strings; an absent or
  \<open>null\<close> field is \<open>None\<close>.
\<close>

record Edict =
  edict_id :: string
  edict_amount :: int
  edict_output :: nat

record PriceTerms =
  pt_amount :: int
  pt_pay_to :: string

record Terms =
  terms_price :: "PriceTerms option"
  terms_amount :: int
  terms_cap :: "int option"
  terms_height :: "int option \<times> int option"
  terms_offset :: "int option \<times> int option"

record Etching =
  etching_divisibility :: int
  etching_premine :: int
  etching_dune :: string
  etching_symbol :: string
  etching_terms :: "Terms option"
  etching_turbo :: bool

record Dunestone =
  edicts :: "Edict list option"
  etching :: "Etching option"
  mint :: "string option"
  pointer :: "nat option"
  cenotaph :: bool

text \<open>
  A transaction output of the RPC. \<open>vout_value\<close> is its \<open>value\<close>, the amount in BTC as the double
  that the RPC's JSON number was read into.
\<close>

record Vout =
  spk_type :: "string option"
  spk_asm :: "string option"
  spk_address :: "string option"
  vout_value :: float64

text \<open>\<open>IndexedTxExtended\<close>, with the fields the engine functions below read.\<close>

record Transaction =
  block :: int
  txIndex :: int
  dunestone :: Dunestone
  vout :: "Vout list"
  virtual_id :: "int option"
  sender :: "string option"

text \<open>
  A row of the \<open>Dune\<close> table. The numeric columns hold decimal strings or bigints in JS and are
  only read through \<open>BigInt(...)\<close>; the record holds their integer value. \<open>mint_cap\<close> is written
  by \<open>processEtching\<close> as the decoder's bigint or \<open>null\<close>.
\<close>

record Dune =
  row_id :: int
  dune_protocol_id :: string
  name :: string
  symbol :: string
  decimals :: int
  total_supply :: int
  total_holders :: int
  mints :: int
  premine :: int
  mint_cap :: "int option"
  mint_amount :: "int option"
  mint_start :: "int option"
  mint_end :: "int option"
  mint_offset_start :: "int option"
  mint_offset_end :: "int option"
  price_amount :: "int option"
  price_pay_to :: "string option"
  turbo :: bool
  burnt_amount :: int
  unmintable :: bool
  etch_transaction_id :: "int option"
  deployer_address_id :: int

record AddressRow =
  address_key :: string
  address_row_id :: int
  address :: "string option"

record Event =
  event_type :: nat
  event_block :: int
  event_transaction_id :: "int option"
  event_dune_id :: int
  event_amount :: "int option"
  from_address_id :: int
  to_address_id :: int



section \<open>The block cache\<close>

text \<open>
  Modelled from the spec: the storage module (\<open>./storage\<close>: \<open>findOne\<close>, \<open>findOrCreate\<close>,
  \<open>findManyInFilter\<close>, \<open>create\<close>, \<open>updateAttribute\<close>) is not among the sources. Following section
  4.4 of the specification it is an in-memory table per entity, read by a natural key
  (\<open>dune_protocol_id\<close> for a dune, or its name with the suffix \<open>@REF@name\<close>; the address string
  for an address), in which a created row receives a tentative local id. The engine calls it
  with the flag that makes every answer synchronous, so the guard \<open>isValidResponse\<close> fails
  exactly when \<open>findOne\<close> finds no row.
\<close>

record storage =
  local_Dune :: "Dune list"
  local_Address :: "AddressRow list"
  local_Event :: "Event list"

definition findOne_Dune :: "storage \<Rightarrow> string \<Rightarrow> Dune option" where
  "findOne_Dune st k = find (\<lambda>d. dune_protocol_id d = k) (local_Dune st)"

definition findOne_Dune_REF_name :: "storage \<Rightarrow> string \<Rightarrow> Dune option" where
  "findOne_Dune_REF_name st n = find (\<lambda>d. name d = n) (local_Dune st)"

definition findManyInFilter_Dune :: "storage \<Rightarrow> string list \<Rightarrow> Dune list" where
  "findManyInFilter_Dune st ks = filter (\<lambda>d. dune_protocol_id d \<in> set ks) (local_Dune st)"

definition findOne_Address :: "storage \<Rightarrow> string \<Rightarrow> AddressRow option" where
  "findOne_Address st k = find (\<lambda>a. address_key a = k) (local_Address st)"

definition fresh_id :: "int list \<Rightarrow> int" where
  "fresh_id ids = fold max ids 0 + 1"

definition findOrCreate_Address ::
  "storage \<Rightarrow> string \<Rightarrow> string option \<Rightarrow> AddressRow \<times> storage" where
  "findOrCreate_Address st k addr =
     (case findOne_Address st k of
        Some a \<Rightarrow> (a, st)
      | None \<Rightarrow>
          (let a = \<lparr> address_key = k,
                     address_row_id = fresh_id (map address_row_id (local_Address st)),
                     address = addr \<rparr>
           in (a, st\<lparr> local_Address := local_Address st @ [a] \<rparr>)))"

definition create_Dune :: "storage \<Rightarrow> Dune \<Rightarrow> Dune \<times> storage" where
  "create_Dune st d =
     (let d' = d\<lparr> row_id := fresh_id (map row_id (local_Dune st)) \<rparr>
      in (d', st\<lparr> local_Dune := local_Dune st @ [d'] \<rparr>))"

definition create_Event :: "storage \<Rightarrow> Event \<Rightarrow> storage" where
  "create_Event st e = st\<lparr> local_Event := local_Event st @ [e] \<rparr>"

fun update_first :: "('a \<Rightarrow> bool) \<Rightarrow> ('a \<Rightarrow> 'a) \<Rightarrow> 'a list \<Rightarrow> 'a list" where
  "update_first P f [] = []"
| "update_first P f (x # xs) = (if P x then f x # xs else x # update_first P f xs)"

text \<open>\<open>updateAttribute("Dune", key, "mints", v)\<close>: the row that \<open>findOne\<close> answers for the key.\<close>

definition updateAttribute_Dune_mints :: "storage \<Rightarrow> string \<Rightarrow> int \<Rightarrow> storage" where
  "updateAttribute_Dune_mints st k v =
     st\<lparr> local_Dune :=
           update_first (\<lambda>d. dune_protocol_id d = k) (\<lambda>d. d\<lparr> mints := v \<rparr>) (local_Dune st) \<rparr>"

section \<open>Protocol rules (\<open>src/src/lib/indexer.js\<close>, lines 694 to 907)\<close>

definition minimumLengthAtHeight :: "int \<Rightarrow> int" where
  "minimumLengthAtHeight blk =
     (let stepsPassed = (blk - GENESIS_BLOCK) div UNLOCK_INTERVAL
      in INITIAL_AVAILABLE - stepsPassed)"

text \<open>\<open>updateUnallocated(prev, {dune_id, amount})\<close>; the object is updated in place and returned.\<close>

definition updateUnallocated :: "BigDict \<Rightarrow> string \<Rightarrow> int \<Rightarrow> BigDict" where
  "updateUnallocated prevUnallocatedDunes dune_id amount =
     AList.update dune_id
       ((case map_of prevUnallocatedDunes dune_id of None \<Rightarrow> 0 | Some v \<Rightarrow> v) + amount)
       prevUnallocatedDunes"

text \<open>
  \<open>isMintOpen(block, txIndex, Dune, mint_offset)\<close>, lines 806 to 907 of \<open>indexer.js\<close> (where the
  row is called \<open>Rune\<close> and its key \<open>rune_protocol_id\<close>). \<open>if (mint_cap)\<close> is JS truthiness:
  neither \<open>null\<close> nor \<open>0n\<close>. \<open>mint_start\<close> and \<open>mint_end\<close> may be \<open>null\<close>, which differs from
  every number under \<open>!==\<close> and which \<open>parseInt\<close> turns into \<open>NaN\<close>.
\<close>

definition isMintOpen :: "int \<Rightarrow> int \<Rightarrow> Dune \<Rightarrow> bool \<Rightarrow> bool" where
  "isMintOpen blk txIdx D mint_offset =
     (if unmintable D then False
      else
        let ps = map parseInt_string (split_colon (dune_protocol_id D));
            creationBlock = (case ps of [] \<Rightarrow> NaN | b # _ \<Rightarrow> b);
            creationTxIndex = (case ps of _ # t # _ \<Rightarrow> Some t | _ \<Rightarrow> None)
        in
        if js_strict_eq (Num blk) creationBlock \<and>
           (case creationTxIndex of None \<Rightarrow> False | Some t \<Rightarrow> js_strict_eq t (Num txIdx))
        then False
        else
          let creationBlock =
                (if dune_protocol_id D = ''1:0'' then Num GENESIS_BLOCK else creationBlock);
              offset_start =
                js_add (Num (case mint_offset_start D of None \<Rightarrow> 0 | Some x \<Rightarrow> x)) creationBlock;
              offset_end =
                js_add (Num (case mint_offset_end D of None \<Rightarrow> 0 | Some x \<Rightarrow> x)) creationBlock;
              total_mints = mints D + (if mint_offset then 1 else 0)
          in
          if (case mint_cap D of None \<Rightarrow> False | Some cap \<Rightarrow> cap \<noteq> 0 \<and> total_mints > cap)
          then False
          else
            let m_start = (case mint_start D of None \<Rightarrow> NaN | Some x \<Rightarrow> Num x);
                m_end = (case mint_end D of None \<Rightarrow> NaN | Some x \<Rightarrow> Num x);
                starts = filter (\<lambda>e. \<not> js_strict_eq e creationBlock) [m_start, offset_start];
                ends = filter (\<lambda>e. \<not> js_strict_eq e creationBlock) [m_end, offset_end];
                start =
                  (if length starts = 2 then
                     Math_max (case mint_start D of None \<Rightarrow> creationBlock | Some x \<Rightarrow> Num x)
                       offset_start
                   else (case starts of [] \<Rightarrow> creationBlock | x # _ \<Rightarrow> x));
                end' =
                  (if length ends = 2 then
                     Math_min (case mint_end D of None \<Rightarrow> offset_end | Some x \<Rightarrow> Num x)
                       offset_end
                   else (case ends of [] \<Rightarrow> Infinity | x # _ \<Rightarrow> x))
            in \<not> (js_gt start (Num blk) \<or> js_lt end' (Num blk)))"


section \<open>The transition engine (\<open>src/unnamed/part_003\<close>, the TypeScript indexer)\<close>

subsection \<open>The satoshis of an output\<close>

text \<open>
  The engine turns the \<open>value\<close> of an output into satoshis in two places.
  \<open>createNewUtxoBodies\<close> (line 170) stores \<open>value_sats\<close> as the decimal string of
  \<open>BigInt(Math.round(out.value * 1e8))\<close>, which is \<open>sats_round\<close>; \<open>processMint\<close> (line 513) reads
  a payment as \<open>BigInt(Math.floor(v.value * 1e8))\<close>, which is \<open>sats_floor\<close>.
\<close>

definition sats_round :: "float64 \<Rightarrow> error + int" where
  "sats_round v = BigInt_number (Math_round (times_1e8 v))"

definition sats_floor :: "float64 \<Rightarrow> error + int" where
  "sats_floor v = BigInt_number (Math_floor (times_1e8 v))"

text \<open>\<open>.map((v) => BigInt(Math.floor(v.value * 1e8)))\<close>, which stops at the first throw.\<close>

fun map_sats_floor :: "Vout list \<Rightarrow> error + int list" where
  "map_sats_floor [] = Inr []"
| "map_sats_floor (v # vs) =
     (case sats_floor (vout_value v) of
        Inl e \<Rightarrow> Inl e
      | Inr x \<Rightarrow> (case map_sats_floor vs of Inl e \<Rightarrow> Inl e | Inr xs \<Rightarrow> Inr (x # xs)))"

subsection \<open>\<open>processEdicts\<close>\<close>

text \<open>
  \<open>processEdicts\<close> mutates three objects it is handed: the unallocated bag, the pending outputs
  and the \<open>transfers\<close> map. They are passed as one record and returned updated. A pending
  output is referred to by its index in \<open>pendingUtxos\<close>: \<open>nonOpReturnOutputs\<close> holds references
  to the same objects, so it is the list of their indices. The keys of \<open>transfers\<close> are
  \<open>"burn"\<close> or an address id.
\<close>

datatype transfer_key = Burn | Addr int

type_synonym ITransfers = "(transfer_key \<times> BigDict) list"

record engine =
  UnallocatedDunes :: BigDict
  pendingUtxos :: "IndexerUtxo list"
  transfers :: ITransfers

text \<open>
  The closure \<open>allocate(utxo, duneId, amount)\<close>. \<open>UnallocatedDunes[duneId]\<close> may be \<open>undefined\<close>:
  then \<open>undefined < amount\<close> is false, and for \<open>amount === 0n\<close> the subtraction
  \<open>0n - undefined\<close> throws a \<open>TypeError\<close>. A \<open>utxo\<close> that is \<open>undefined\<close> (an index outside
  \<open>pendingUtxos\<close>) throws at \<open>utxo.dune_balances\<close>.
\<close>

definition allocate :: "engine \<Rightarrow> nat \<Rightarrow> string \<Rightarrow> int \<Rightarrow> error + engine" where
  "allocate s utxo duneId amount =
     (let unallocated = map_of (UnallocatedDunes s) duneId in
      case (case unallocated of
              None \<Rightarrow> (if amount = 0 then None else Some amount)
            | Some u \<Rightarrow> Some (if u < amount \<or> amount = 0 then u else amount)) of
        None \<Rightarrow> Inl TypeError
      | Some withDefault \<Rightarrow>
          if length (pendingUtxos s) \<le> utxo then Inl TypeError
          else
            let U' = AList.update duneId
                       ((case unallocated of None \<Rightarrow> 0 | Some u \<Rightarrow> u) - withDefault)
                       (UnallocatedDunes s);
                out = pendingUtxos s ! utxo;
                bal = (case dune_balances out of None \<Rightarrow> [] | Some b \<Rightarrow> b);
                bal' = AList.update duneId
                         ((case map_of bal duneId of None \<Rightarrow> 0 | Some b \<Rightarrow> b) + withDefault) bal;
                s' = s\<lparr> UnallocatedDunes := U',
                        pendingUtxos := (pendingUtxos s)[utxo := out\<lparr> dune_balances := Some bal' \<rparr>] \<rparr>
            in
            if withDefault = 0 then Inr s'
            else
              let toAddress = (if address_id out = 2 then Burn else Addr (address_id out));
                  row = (case map_of (transfers s) toAddress of None \<Rightarrow> [] | Some r \<Rightarrow> r);
                  cur = (case map_of row duneId of None \<Rightarrow> 0 | Some v \<Rightarrow> v);
                  row' = AList.update duneId (cur + withDefault) row
              in Inr (s'\<lparr> transfers := AList.update toAddress row' (transfers s) \<rparr>))"

text \<open>A \<open>forEach\<close> whose body is one call of \<open>allocate\<close>; an exception ends it.\<close>

fun allocate_each :: "engine \<Rightarrow> (nat \<times> string \<times> int) list \<Rightarrow> error + engine" where
  "allocate_each s [] = Inr s"
| "allocate_each s ((utxo, duneId, amount) # calls) =
     (case allocate s utxo duneId amount of
        Inl e \<Rightarrow> Inl e
      | Inr s' \<Rightarrow> allocate_each s' calls)"

definition nonOpReturnOutputs :: "IndexerUtxo list \<Rightarrow> nat list" where
  "nonOpReturnOutputs pending =
     filter (\<lambda>i. address_id (pending ! i) \<noteq> 2) [0 ..< length pending]"

text \<open>
  The body of the loop over the edicts, for one edict (its id already rewritten).
  \<open>existingDunes\<close> is the array that \<open>findManyInFilter\<close> answered, for which the guard
  \<open>isValidResponse\<close> does not fail.
\<close>

definition processEdict :: "Dune list \<Rightarrow> engine \<Rightarrow> Edict \<Rightarrow> error + engine" where
  "processEdict existingDunes s edict =
     (if \<not> list_ex (\<lambda>d. dune_protocol_id d = edict_id edict) existingDunes then Inr s
      else
        case map_of (UnallocatedDunes s) (edict_id edict) of
          None \<Rightarrow> Inr s
        | Some unallocated \<Rightarrow>
            if unallocated = 0 then Inr s
            else if edict_output edict = length (pendingUtxos s) then
              (if edict_amount edict = 0 then
                 (let outs = nonOpReturnOutputs (pendingUtxos s);
                      amountOutputs = int (length outs)
                  in
                  if amountOutputs > 0 then
                    (let amount = unallocated sdiv amountOutputs;
                         remainder = unallocated smod amountOutputs;
                         withRemainder = amount + 1
                     in allocate_each s
                          (map (\<lambda>(index, utxo).
                                  (utxo, edict_id edict,
                                   if int index < remainder then withRemainder else amount))
                             (zip [0 ..< length outs] outs)))
                  else Inr s)
               else
                 allocate_each s
                   (map (\<lambda>utxo. (utxo, edict_id edict, edict_amount edict))
                      (nonOpReturnOutputs (pendingUtxos s))))
            else allocate s (edict_output edict) (edict_id edict) (edict_amount edict))"

fun edict_loop :: "Dune list \<Rightarrow> engine \<Rightarrow> Edict list \<Rightarrow> error + engine" where
  "edict_loop existingDunes s [] = Inr s"
| "edict_loop existingDunes s (edict # rest) =
     (case processEdict existingDunes s edict of
        Inl e \<Rightarrow> Inl e
      | Inr s' \<Rightarrow> edict_loop existingDunes s' rest)"

text \<open>
  The choice of the output that receives the residue. \<open>pointer ? ... : ...\<close> is JS truthiness,
  so a pointer that is absent or \<open>0\<close> takes the second branch; \<open>None\<close> is the thrown error.
\<close>

definition pointerOutput :: "nat option \<Rightarrow> IndexerUtxo list \<Rightarrow> nat option" where
  "pointerOutput ptr pending =
     (let outs = nonOpReturnOutputs pending;
          first_nonop = (case outs of [] \<Rightarrow> None | i # _ \<Rightarrow> Some i);
          chosen =
            (case ptr of
               None \<Rightarrow> first_nonop
             | Some p \<Rightarrow>
                 if p \<noteq> 0 then (if p < length pending then Some p else first_nonop)
                 else first_nonop)
      in case chosen of
           Some i \<Rightarrow> Some i
         | None \<Rightarrow> find (\<lambda>i. address_id (pending ! i) = 2) [0 ..< length pending])"

definition pointer_sweep :: "nat option \<Rightarrow> engine \<Rightarrow> error + engine" where
  "pointer_sweep ptr s =
     (case pointerOutput ptr (pendingUtxos s) of
        None \<Rightarrow> Inl (Error ''No pointer output found. This transaction is invalid.'')
      | Some out \<Rightarrow>
          allocate_each s (map (\<lambda>(duneId, amt). (out, duneId, amt)) (UnallocatedDunes s)))"

definition edicts_phase :: "engine \<Rightarrow> Transaction \<Rightarrow> storage \<Rightarrow> error + engine" where
  "edicts_phase s tx st =
     (case edicts (dunestone tx) of
        None \<Rightarrow> Inr s
      | Some es \<Rightarrow>
          (let transactionDuneId = dune_id_of (block tx) (txIndex tx);
               es' = map (\<lambda>e. e\<lparr> edict_id :=
                                   (if edict_id e = ''0:0'' then transactionDuneId else edict_id e) \<rparr>) es;
               existingDunes = findManyInFilter_Dune st (map edict_id es')
           in edict_loop existingDunes s es'))"

definition processEdicts :: "engine \<Rightarrow> Transaction \<Rightarrow> storage \<Rightarrow> error + engine" where
  "processEdicts s tx st =
     (if cenotaph (dunestone tx) then
        Inr (s\<lparr> transfers := AList.update Burn (UnallocatedDunes s) (transfers s) \<rparr>)
      else
        case edicts_phase s tx st of
          Inl e \<Rightarrow> Inl e
        | Inr s1 \<Rightarrow> pointer_sweep (pointer (dunestone tx)) s1)"


subsection \<open>\<open>processMint\<close>\<close>

text \<open>
  \<open>isPriceTermsMet\<close> is imported from \<open>./duneutils\<close>, which is not among the sources: it is a
  parameter. \<open>isMintOpen\<close> and \<open>updateUnallocated\<close> are imported from the same module; the
  functions of these names in \<open>indexer.js\<close>, modelled above, have the signatures the calls
  here use. The result is the unallocated bag and the cache, both updated in place by the
  source; \<open>Inl\<close> is a thrown error. \<open>reduce((a, b) => a + b, 0n)\<close> is the sum of the list.
\<close>

definition processMint ::
  "(Dune \<Rightarrow> Transaction \<Rightarrow> bool) \<Rightarrow> BigDict \<Rightarrow> Transaction \<Rightarrow> storage
     \<Rightarrow> error + (BigDict \<times> storage)" where
  "processMint isPriceTermsMet U tx st =
     (case mint (dunestone tx) of
        None \<Rightarrow> Inr (U, st)
      | Some m \<Rightarrow>
          if m = [] then Inr (U, st)
          else
            case findOne_Dune st m of
              None \<Rightarrow> Inr (U, st)
            | Some duneToMint \<Rightarrow>
                if \<not> isPriceTermsMet duneToMint tx then Inr (U, st)
                else if isMintOpen (block tx) (txIndex tx) duneToMint True then
                  (if cenotaph (dunestone tx) then Inr (U, st)
                   else
                     let isFlex = (price_amount duneToMint \<noteq> None);
                         flexAmount =
                           (if isFlex then
                              (case price_pay_to duneToMint of
                                 None \<Rightarrow> Inl (Error ''Missing pay_to address in price terms'')
                               | Some payTo \<Rightarrow>
                                   if payTo = [] then
                                     Inl (Error ''Missing pay_to address in price terms'')
                                   else
                                     (case price_amount duneToMint of
                                        None \<Rightarrow> Inl (Error ''Invalid price amount'')
                                      | Some priceAmount \<Rightarrow>
                                          if priceAmount = 0 then Inl (Error ''Invalid price amount'')
                                          else
                                            (case map_sats_floor
                                                    (filter (\<lambda>v. spk_address v = Some payTo)
                                                       (vout tx)) of
                                               Inl e \<Rightarrow> Inl e
                                             | Inr paid \<Rightarrow>
                                                 let totalRecv = sum_list paid
                                                 in Inr (totalRecv sdiv priceAmount))))
                            else Inr (case mint_amount duneToMint of None \<Rightarrow> 0 | Some a \<Rightarrow> a))
                     in
                     case flexAmount of
                       Inl e \<Rightarrow> Inl e
                     | Inr mintAmount \<Rightarrow>
                         if mintAmount \<le> 0 then Inr (U, st)
                         else
                           case findOne_Address st
                                  (case sender tx of None \<Rightarrow> ''UNKNOWN'' | Some a \<Rightarrow> a) of
                             None \<Rightarrow> Inl (Error ''Invalid response from local cache @ mint:1'')
                           | Some fromAddressResponse \<Rightarrow>
                               let st1 = create_Event st
                                     \<lparr> event_type = 1,
                                       event_block = block tx,
                                       event_transaction_id = virtual_id tx,
                                       event_dune_id = row_id duneToMint,
                                       event_amount = mint_amount duneToMint,
                                       from_address_id = address_row_id fromAddressResponse,
                                       to_address_id = 2 \<rparr>;
                                   newMints = mints duneToMint + 1;
                                   st2 = updateAttribute_Dune_mints st1
                                           (dune_protocol_id duneToMint) newMints
                               in Inr (updateUnallocated U (dune_protocol_id duneToMint) mintAmount,
                                       st2))
                else Inr (U, st))"

subsection \<open>\<open>processEtching\<close>\<close>

text \<open>
  \<open>isSafeChar\<close> is \<open>Number("0x" + hex)\<close> of the symbol's bytes: \<open>NaN\<close> for no byte and \<open>0\<close> when
  every byte is zero, both falsy. The default symbol is the two bytes of U+00A4 in UTF-8.
\<close>

definition isSafeChar :: "string \<Rightarrow> bool" where
  "isSafeChar smb = list_ex (\<lambda>c. (of_char c :: nat) \<noteq> 0) smb"

definition default_symbol :: string where
  "default_symbol = [char_of (194 :: nat), char_of (164 :: nat)]"

definition processEtching ::
  "BigDict \<Rightarrow> Transaction \<Rightarrow> storage \<Rightarrow> bool \<Rightarrow> BigDict \<times> storage" where
  "processEtching U tx st isGenesis =
     (case etching (dunestone tx) of
        None \<Rightarrow> (U, st)
      | Some e \<Rightarrow>
          if findOne_Dune st (dune_id_of (block tx) (txIndex tx)) \<noteq> None then (U, st)
          else
            let duneName = etching_dune e in
            if findOne_Dune_REF_name st duneName \<noteq> None then (U, st)
            else
              let trm = etching_terms e;
                  amount_is_zero = (case trm of None \<Rightarrow> False | Some t \<Rightarrow> terms_amount t = 0);
                  isFlex = (amount_is_zero \<and>
                            (case trm of None \<Rightarrow> False | Some t \<Rightarrow> terms_price t \<noteq> None));
                  hasMintcap =
                    (case trm of
                       None \<Rightarrow> False
                     | Some t \<Rightarrow> (case terms_cap t of None \<Rightarrow> False | Some c \<Rightarrow> c \<noteq> 0))
              in
              if \<not> isFlex \<and> amount_is_zero then (U, st)
              else if isFlex \<and> hasMintcap then (U, st)
              else
                let smb = (if etching_symbol e \<noteq> [] \<and> isSafeChar (etching_symbol e)
                           then etching_symbol e else default_symbol);
                    (etcher, st1) =
                      findOrCreate_Address st
                        (case sender tx of None \<Rightarrow> ''UNKNOWN'' | Some a \<Rightarrow> a) (sender tx);
                    etcherId = address_row_id etcher;
                    (EtchedDune, st2) =
                      create_Dune st1
                        \<lparr> row_id = 0,
                          dune_protocol_id =
                            (if \<not> isGenesis then dune_id_of (block tx) (txIndex tx) else ''1:0''),
                          name = duneName,
                          symbol = smb,
                          decimals = etching_divisibility e,
                          total_supply = etching_premine e,
                          total_holders = 0,
                          mints = 0,
                          premine = etching_premine e,
                          mint_cap = Option.bind trm terms_cap,
                          mint_amount = map_option terms_amount trm,
                          mint_start = Option.bind trm (\<lambda>t. fst (terms_height t)),
                          mint_end = Option.bind trm (\<lambda>t. snd (terms_height t)),
                          mint_offset_start = Option.bind trm (\<lambda>t. fst (terms_offset t)),
                          mint_offset_end = Option.bind trm (\<lambda>t. snd (terms_offset t)),
                          price_amount =
                            Option.bind trm (\<lambda>t. map_option pt_amount (terms_price t)),
                          price_pay_to =
                            Option.bind trm (\<lambda>t. map_option pt_pay_to (terms_price t)),
                          turbo = etching_turbo e,
                          burnt_amount = 0,
                          unmintable =
                            (cenotaph (dunestone tx) \<or>
                             ((case trm of None \<Rightarrow> True | Some t \<Rightarrow> terms_amount t = 0) \<and>
                              \<not> isFlex)),
                          etch_transaction_id = virtual_id tx,
                          deployer_address_id = etcherId \<rparr>;
                    st3 = create_Event st2
                            \<lparr> event_type = 0,
                              event_block = block tx,
                              event_transaction_id = virtual_id tx,
                              event_dune_id = row_id EtchedDune,
                              event_amount = Some (etching_premine e),
                              from_address_id = etcherId,
                              to_address_id = 2 \<rparr>
                in
                if cenotaph (dunestone tx) then (U, st3)
                else (updateUnallocated U (dune_protocol_id EtchedDune) (premine EtchedDune), st3))"

subsection \<open>\<open>burnAllFromUtxo\<close>\<close>

text \<open>
  The one function of \<open>finalizeTransfers\<close> that writes a \<open>Dune\<close> row: for each balance of the
  output it adds the amount to the row's \<open>burnt_amount\<close>, and throws when the row is missing.
\<close>

definition updateAttribute_Dune_burnt_amount :: "storage \<Rightarrow> string \<Rightarrow> int \<Rightarrow> storage" where
  "updateAttribute_Dune_burnt_amount st k v =
     st\<lparr> local_Dune :=
           update_first (\<lambda>d. dune_protocol_id d = k) (\<lambda>d. d\<lparr> burnt_amount := v \<rparr>)
             (local_Dune st) \<rparr>"

fun burn_each :: "storage \<Rightarrow> (string \<times> int) list \<Rightarrow> error + storage" where
  "burn_each st [] = Inr st"
| "burn_each st ((duneId, amt) # rest) =
     (case findOne_Dune st duneId of
        None \<Rightarrow> Inl (Error ''Invalid response from local cache'')
      | Some dune \<Rightarrow>
          burn_each (updateAttribute_Dune_burnt_amount st duneId (burnt_amount dune + amt)) rest)"

definition burnAllFromUtxo :: "IndexerUtxo \<Rightarrow> storage \<Rightarrow> error + storage" where
  "burnAllFromUtxo utxo st =
     (case dune_balances utxo of None \<Rightarrow> Inr st | Some b \<Rightarrow> burn_each st b)"

section \<open>The decoder (\<open>src/src/lib/dunestone.ts\<close>)\<close>

text \<open>
  \<open>JSON.parse\<close> and the \<open>zod\<close> schema are library code. \<open>decipher\<close> is modelled from the point
  where both have run on the payload of the first \<open>OP_RETURN\<close> output: \<open>parsed\<close> is \<open>None\<close> when
  either failed, and the validated object otherwise, its amount strings already read by
  \<open>BigInt\<close> (the schema admits only strings that \<open>BigInt\<close> reads, and \<open>toBig\<close> converts them
  after the checks below, which do not look at them).
\<close>

record DunestoneFull =
  p_edicts :: "Edict list option"
  p_etching :: "Etching option"
  p_mint :: "string option"
  p_pointer :: "nat option"

text \<open>
  \<open>Number(s)\<close> on a part of an edict id; the schema makes the id match \<open>^\d+:\d+$\<close>. Only
  comparisons with \<open>0\<close> are made, for which the rounding of large values does not matter.
\<close>

definition Number_string :: "string \<Rightarrow> jsnum" where
  "Number_string s =
     (if s = [] then Num 0
      else if list_all is_digit s then Num (int (digits_value s)) else NaN)"

definition startsWith :: "string \<Rightarrow> string \<Rightarrow> bool" where
  "startsWith s pre = (take (length pre) s = pre)"

definition badOutput :: "Edict list \<Rightarrow> nat \<Rightarrow> bool" where
  "badOutput es voutLen = list_ex (\<lambda>e. int (edict_output e) > int voutLen - 1) es"

definition badZeroDune :: "Edict list \<Rightarrow> bool" where
  "badZeroDune es =
     list_ex (\<lambda>e.
        let ps = map Number_string (split_colon (edict_id e));
            blk = (case ps of [] \<Rightarrow> None | b # _ \<Rightarrow> Some b);
            idx = (case ps of _ # i # _ \<Rightarrow> Some i | _ \<Rightarrow> None)
        in (case blk of None \<Rightarrow> False | Some b \<Rightarrow> js_strict_eq b (Num 0)) \<and>
           (case idx of None \<Rightarrow> True | Some i \<Rightarrow> \<not> js_strict_eq i (Num 0))) es"

definition no_dunestone :: "bool \<Rightarrow> Dunestone" where
  "no_dunestone c =
     \<lparr> edicts = None, etching = None, mint = None, pointer = None, cenotaph = c \<rparr>"

definition decipher :: "Vout list \<Rightarrow> DunestoneFull option \<Rightarrow> Dunestone" where
  "decipher tx_vout parsed =
     (case find (\<lambda>v. spk_type v = Some ''nulldata'' \<or>
                     (case spk_asm v of None \<Rightarrow> False | Some a \<Rightarrow> startsWith a ''OP_RETURN''))
             tx_vout of
        None \<Rightarrow> no_dunestone False
      | Some op \<Rightarrow>
          (case parsed of
             None \<Rightarrow> no_dunestone True
           | Some dune \<Rightarrow>
               if (case p_edicts dune of
                     None \<Rightarrow> False
                   | Some es \<Rightarrow> badOutput es (length tx_vout) \<or> badZeroDune es)
               then no_dunestone True
               else \<lparr> edicts = p_edicts dune, etching = p_etching dune, mint = p_mint dune,
                      pointer = p_pointer dune, cenotaph = False \<rparr>))"


section \<open>Reading the engine's objects\<close>

text \<open>
  The reads the source makes with a default: \<open>(utxo.dune_balances ?? {})[id] ?? 0n\<close>,
  \<open>transfers[to]?.[id] ?? 0n\<close>, the key \<open>toAddress\<close> of \<open>allocate\<close>, and the amount
  \<open>withDefault\<close> that \<open>allocate\<close> computes from a defined \<open>UnallocatedDunes[duneId]\<close>.
\<close>

definition balance_of :: "IndexerUtxo \<Rightarrow> string \<Rightarrow> int" where
  "balance_of u k =
     (case dune_balances u of
        None \<Rightarrow> 0
      | Some b \<Rightarrow> (case map_of b k of None \<Rightarrow> 0 | Some v \<Rightarrow> v))"

definition transferred :: "ITransfers \<Rightarrow> transfer_key \<Rightarrow> string \<Rightarrow> int" where
  "transferred T to k =
     (case map_of T to of
        None \<Rightarrow> 0
      | Some r \<Rightarrow> (case map_of r k of None \<Rightarrow> 0 | Some v \<Rightarrow> v))"

definition toAddress_of :: "IndexerUtxo \<Rightarrow> transfer_key" where
  "toAddress_of u = (if address_id u = 2 then Burn else Addr (address_id u))"

definition give_of :: "int \<Rightarrow> int \<Rightarrow> int" where
  "give_of unallocated amount =
     (if unallocated < amount \<or> amount = 0 then unallocated else amount)"

definition all_zero :: "BigDict \<Rightarrow> bool" where
  "all_zero U = list_all (\<lambda>(k, v). v = 0) U"

text \<open>
  The invariant II5 for one row, with \<open>mint_cap\<close> read the way \<open>isMintOpen\<close> reads it: a cap
  that is \<open>null\<close> or \<open>0n\<close> is no cap.
\<close>

definition cap_respected :: "Dune \<Rightarrow> bool" where
  "cap_respected d =
     (case mint_cap d of None \<Rightarrow> True | Some cap \<Rightarrow> cap \<noteq> 0 \<longrightarrow> mints d \<le> cap)"

text \<open>The decoder admits a cap only in \<open>[0, 2^128)\<close>.\<close>

definition etching_cap_nonneg :: "Dunestone \<Rightarrow> bool" where
  "etching_cap_nonneg ds =
     (case etching ds of
        None \<Rightarrow> True
      | Some e \<Rightarrow>
          (case etching_terms e of
             None \<Rightarrow> True
           | Some t \<Rightarrow> (case terms_cap t of None \<Rightarrow> True | Some c \<Rightarrow> 0 \<le> c)))"

section \<open>Example data\<close>

text \<open>
  The scenarios of section 8 of the specification: the dune \<open>HELLO\<close> etched at \<open>840100:1\<close>
  (amount 10, cap 100, premine 1000), transactions at height 840101, outputs paying an address
  or carrying the \<open>OP_RETURN\<close> (address id 2).
\<close>

definition ex_output :: "int \<Rightarrow> nat \<Rightarrow> IndexerUtxo" where
  "ex_output addr n =
     \<lparr> utxo_index = dune_id_of addr (int n), address_id = addr, value_sats = ''546'',
       transaction_id = 9, vout_index = n, block_created = 840101, block_spent = None,
       transaction_spent_id = None, dune_balances = Some [] \<rparr>"

definition ex_outputs :: "IndexerUtxo list" where
  "ex_outputs = [ex_output 10 0, ex_output 11 1, ex_output 2 2]"

definition ex_dune :: Dune where
  "ex_dune =
     \<lparr> row_id = 1, dune_protocol_id = ''840100:1'', name = ''HELLO'', symbol = ''$'',
       decimals = 2, total_supply = 1000, total_holders = 0, mints = 0, premine = 1000,
       mint_cap = Some 100, mint_amount = Some 10, mint_start = None, mint_end = None,
       mint_offset_start = None, mint_offset_end = None, price_amount = None,
       price_pay_to = None, turbo = True, burnt_amount = 0, unmintable = False,
       etch_transaction_id = Some 3, deployer_address_id = 4 \<rparr>"

definition ex_storage :: "Dune list \<Rightarrow> storage" where
  "ex_storage ds =
     \<lparr> local_Dune = ds,
       local_Address = [\<lparr> address_key = ''bc1qsender'', address_row_id = 4,
                          address = Some ''bc1qsender'' \<rparr>],
       local_Event = [] \<rparr>"

text \<open>
  The amounts of the examples, each the double nearest to the decimal number the RPC prints:
  \<open>0\<close>, \<open>0.00000546\<close>, \<open>0.000045\<close> and \<open>0.58\<close> BTC, written with a significand of 53 binary
  digits.
\<close>

definition btc_0 :: float64 where
  "btc_0 = Finite 0 0"

definition btc_0_00000546 :: float64 where
  "btc_0_00000546 = Finite 6446030249117066 (- 70)"

definition btc_0_000045 :: float64 where
  "btc_0_000045 = Finite 6640827866535439 (- 67)"

definition btc_0_58 :: float64 where
  "btc_0_58 = Finite 5224175567749775 (- 53)"

definition ex_vout :: "string option \<Rightarrow> float64 \<Rightarrow> Vout" where
  "ex_vout addr btc =
     \<lparr> spk_type = (if addr = None then Some ''nulldata'' else Some ''witness_v0_keyhash''),
       spk_asm = (if addr = None then Some ''OP_RETURN 7b7d'' else Some ''0 ab''),
       spk_address = addr, vout_value = btc \<rparr>"



definition ex_tx :: "Dunestone \<Rightarrow> Vout list \<Rightarrow> Transaction" where
  "ex_tx ds vs =
     \<lparr> block = 840101, txIndex = 5, dunestone = ds, vout = vs, virtual_id = Some 9,
       sender = Some ''bc1qsender'' \<rparr>"

definition ex_mint :: "bool \<Rightarrow> Dunestone" where
  "ex_mint c =
     \<lparr> edicts = None, etching = None, mint = Some ''840100:1'', pointer = None,
       cenotaph = c \<rparr>"

definition ex_transfer :: "Edict list option \<Rightarrow> nat option \<Rightarrow> Dunestone" where
  "ex_transfer es ptr =
     \<lparr> edicts = es, etching = None, mint = None, pointer = ptr, cenotaph = False \<rparr>"

definition ex_engine :: "int \<Rightarrow> IndexerUtxo list \<Rightarrow> engine" where
  "ex_engine amt pending =
     \<lparr> UnallocatedDunes = [(''840100:1'', amt)], pendingUtxos = pending, transfers = [] \<rparr>"

definition ex_etching :: "string \<Rightarrow> Dunestone" where
  "ex_etching nm =
     \<lparr> edicts = None,
       etching = Some \<lparr> etching_divisibility = 2, etching_premine = 1000, etching_dune = nm,
                        etching_symbol = ''$'',
                        etching_terms = Some \<lparr> terms_price = None, terms_amount = 10,
                                               terms_cap = Some 100,
                                               terms_height = (None, None),
                                               terms_offset = (None, None) \<rparr>,
                        etching_turbo = True \<rparr>,
       mint = None, pointer = None, cenotaph = False \<rparr>"

definition ex_flex_dune :: "int \<Rightarrow> Dune" where
  "ex_flex_dune price =
     ex_dune\<lparr> mint_cap := None, mint_amount := Some 0, price_amount := Some price,
              price_pay_to := Some ''bc1qpay'' \<rparr>"

definition ex_flex_tx :: "float64 \<Rightarrow> Transaction" where
  "ex_flex_tx btc = ex_tx (ex_mint False) [ex_vout None btc_0, ex_vout (Some ''bc1qpay'') btc]"

definition ex_mint_event :: "int option \<Rightarrow> Event" where
  "ex_mint_event amt =
     \<lparr> event_type = 1, event_block = 840101, event_transaction_id = Some 9, event_dune_id = 1,
       event_amount = amt, from_address_id = 4, to_address_id = 2 \<rparr>"

section \<open>Decimal strings are read back\<close>

lemma digit_char_props:
  assumes "d < 10"
  shows "is_digit (digit_char d)" and "digit_val (digit_char d) = d"
    and "digit_char d \<noteq> CHR ''-''"
proof -
  have e: "(of_char (digit_char d) :: nat) = 48 + d"
    using assms by (simp add: digit_char_def)
  show "is_digit (digit_char d)" using assms by (simp add: is_digit_def e)
  show "digit_val (digit_char d) = d" by (simp add: digit_val_def e)
  show "digit_char d \<noteq> CHR ''-''"
  proof
    assume "digit_char d = CHR ''-''"
    then have "(of_char (digit_char d) :: nat) = of_char (CHR ''-'')" by simp
    then show False by (simp add: e)
  qed
qed

lemma digits_value_snoc: "digits_value (s @ [c]) = 10 * digits_value s + digit_val c"
  by (simp add: digits_value_def)

lemma toString_nat_props:
  "list_all is_digit (toString_nat n) \<and> digits_value (toString_nat n) = n \<and>
   toString_nat n \<noteq> [] \<and> hd (toString_nat n) \<noteq> CHR ''-''"
proof (induction n rule: toString_nat.induct)
  case (1 n)
  show ?case
  proof (cases "n < 10")
    case True
    then show ?thesis
      by (simp add: toString_nat.simps [of n] digit_char_props digits_value_def)
  next
    case False
    have m: "n mod 10 < 10" by simp
    from False 1 have ih: "list_all is_digit (toString_nat (n div 10))"
      "digits_value (toString_nat (n div 10)) = n div 10"
      "toString_nat (n div 10) \<noteq> []" "hd (toString_nat (n div 10)) \<noteq> CHR ''-''"
      by simp_all
    show ?thesis
      using False ih digit_char_props [OF m]
      by (simp add: toString_nat.simps [of n] digits_value_snoc)
  qed
qed

lemma BigInt_toString: "BigInt_string (toString_bigint i) = Some i"
proof (cases "i < 0")
  case True
  then show ?thesis
    using toString_nat_props [of "nat (- i)"]
    by (simp add: BigInt_string_def toString_bigint_def)
next
  case False
  obtain c r where cr: "toString_nat (nat i) = c # r"
    using toString_nat_props [of "nat i"] by (cases "toString_nat (nat i)") auto
  with toString_nat_props [of "nat i"] have "c \<noteq> CHR ''-''" by auto
  then show ?thesis
    using False cr toString_nat_props [of "nat i"]
    by (simp add: BigInt_string_def toString_bigint_def)
qed

section \<open>The two 64-bit halves of a balance\<close>

lemma and_MAX_64_UNSIGNED: "(k::int) AND MAX_64_UNSIGNED = take_bit 64 k"
proof -
  have "MAX_64_UNSIGNED = mask 64"
    by (simp add: MAX_64_UNSIGNED_def mask_eq_exp_minus_1)
  then show ?thesis by (simp add: take_bit_eq_mask)
qed

lemma halves_recombine:
  "push_bit 64 (take_bit 64 (drop_bit 64 (k::int))) OR take_bit 64 k = take_bit 128 k"
  by (rule bit_eqI) (auto simp add: bit_simps)

lemma signed_half_back:
  assumes "0 \<le> (x::int)" "x < 2 ^ 64"
  shows "(let y = (if x > MAX_64_SIGNED then x - (MAX_64_UNSIGNED + 1) else x)
          in (if y < 0 then y + (MAX_64_UNSIGNED + 1) else y)) = x"
  using assms by (simp add: MAX_64_SIGNED_def MAX_64_UNSIGNED_def Let_def)

lemma signed_half:
  assumes "0 \<le> (x::int)" "x < 2 ^ 64"
  shows "- (2 ^ 63) \<le> (if x > MAX_64_SIGNED then x - (MAX_64_UNSIGNED + 1) else x)"
    and "(if x > MAX_64_SIGNED then x - (MAX_64_UNSIGNED + 1) else x) < 2 ^ 63"
    and "(if x > MAX_64_SIGNED then x - (MAX_64_UNSIGNED + 1) else x) mod 2 ^ 64 = x"
proof -
  show "- (2 ^ 63) \<le> (if x > MAX_64_SIGNED then x - (MAX_64_UNSIGNED + 1) else x)"
    using assms by (simp add: MAX_64_SIGNED_def MAX_64_UNSIGNED_def)
  show "(if x > MAX_64_SIGNED then x - (MAX_64_UNSIGNED + 1) else x) < 2 ^ 63"
    using assms by (simp add: MAX_64_SIGNED_def MAX_64_UNSIGNED_def)
  have "(x - 2 ^ 64) mod 2 ^ 64 = x mod 2 ^ 64" by (rule minus_mod_self2)
  moreover have "x mod 2 ^ 64 = x" using assms by (simp add: mod_pos_pos_trivial)
  ultimately show "(if x > MAX_64_SIGNED then x - (MAX_64_UNSIGNED + 1) else x) mod 2 ^ 64 = x"
    by (simp add: MAX_64_UNSIGNED_def)
qed

text \<open>
  Claim C9. For every amount in \<open>[0, 2^128)\<close>, \<open>convertAmountToParts\<close> splits it into the two
  signed 64-bit halves, written as decimal strings: \<open>balance_0\<close> is the number of
  \<open>[-2^63, 2^63)\<close> congruent modulo \<open>2^64\<close> to the low 64 bits of the amount, \<open>balance_1\<close> the one
  congruent to its high 64 bits. Recombining them returns the amount:
  \<open>convertPartsToAmount(convertAmountToParts(amount)) = amount\<close>.
\<close>

theorem convertParts_roundtrip:
  assumes "0 \<le> amount" "amount < 2 ^ 128"
  shows "convertPartsToAmount (balance_0 (convertAmountToParts amount))
           (balance_1 (convertAmountToParts amount)) = Some amount \<and>
    (\<exists>lo hi.
       convertAmountToParts amount =
         \<lparr> balance_0 = toString_bigint lo, balance_1 = toString_bigint hi \<rparr> \<and>
       BigInt_string (balance_0 (convertAmountToParts amount)) = Some lo \<and>
       BigInt_string (balance_1 (convertAmountToParts amount)) = Some hi \<and>
       - (2 ^ 63) \<le> lo \<and> lo < 2 ^ 63 \<and> - (2 ^ 63) \<le> hi \<and> hi < 2 ^ 63 \<and>
       lo mod 2 ^ 64 = amount mod 2 ^ 64 \<and> hi mod 2 ^ 64 = amount div 2 ^ 64)"
proof (rule conjI)
  let ?lo = "take_bit 64 amount"
  let ?hi = "take_bit 64 (drop_bit 64 amount)"
  have lo: "0 \<le> ?lo" "?lo < 2 ^ 64"
    by (rule take_bit_nonnegative) (rule take_bit_int_less_exp)
  have hi: "0 \<le> ?hi" "?hi < 2 ^ 64"
    by (rule take_bit_nonnegative) (rule take_bit_int_less_exp)
  have "take_bit 128 amount = amount"
    using assms by (simp add: take_bit_int_eq_self)
  then have r: "push_bit 64 ?hi OR ?lo = amount"
    using halves_recombine [of amount] by simp
  show "convertPartsToAmount (balance_0 (convertAmountToParts amount))
           (balance_1 (convertAmountToParts amount)) = Some amount"
    using signed_half_back [OF lo] signed_half_back [OF hi] r
    by (simp add: convertPartsToAmount_def convertAmountToParts_def BigInt_toString
        and_MAX_64_UNSIGNED Let_def)
  define l where "l = (if ?lo > MAX_64_SIGNED then ?lo - (MAX_64_UNSIGNED + 1) else ?lo)"
  define h where "h = (if ?hi > MAX_64_SIGNED then ?hi - (MAX_64_UNSIGNED + 1) else ?hi)"
  have p: "convertAmountToParts amount =
             \<lparr> balance_0 = toString_bigint l, balance_1 = toString_bigint h \<rparr>"
    by (simp add: convertAmountToParts_def and_MAX_64_UNSIGNED Let_def l_def h_def)
  have b: "BigInt_string (balance_0 (convertAmountToParts amount)) = Some l"
    "BigInt_string (balance_1 (convertAmountToParts amount)) = Some h"
    by (simp_all add: p BigInt_toString)
  have lr: "- (2 ^ 63) \<le> l" "l < 2 ^ 63" "l mod 2 ^ 64 = ?lo"
    unfolding l_def by (rule signed_half [OF lo])+
  have hr: "- (2 ^ 63) \<le> h" "h < 2 ^ 63" "h mod 2 ^ 64 = ?hi"
    unfolding h_def by (rule signed_half [OF hi])+
  have lm: "?lo = amount mod 2 ^ 64" by (rule take_bit_eq_mod)
  have "amount div 2 ^ 64 \<le> (2 ^ 128 - 1) div 2 ^ 64"
    by (rule zdiv_mono1) (use assms in simp_all)
  then have "amount div 2 ^ 64 < 2 ^ 64" by simp
  moreover have "0 \<le> amount div 2 ^ 64" using assms by (simp add: pos_imp_zdiv_nonneg_iff)
  ultimately have hm: "?hi = amount div 2 ^ 64"
    by (simp add: take_bit_eq_mod drop_bit_eq_div mod_pos_pos_trivial)
  show "\<exists>lo hi.
       convertAmountToParts amount =
         \<lparr> balance_0 = toString_bigint lo, balance_1 = toString_bigint hi \<rparr> \<and>
       BigInt_string (balance_0 (convertAmountToParts amount)) = Some lo \<and>
       BigInt_string (balance_1 (convertAmountToParts amount)) = Some hi \<and>
       - (2 ^ 63) \<le> lo \<and> lo < 2 ^ 63 \<and> - (2 ^ 63) \<le> hi \<and> hi < 2 ^ 63 \<and>
       lo mod 2 ^ 64 = amount mod 2 ^ 64 \<and> hi mod 2 ^ 64 = amount div 2 ^ 64"
    using p b lr hr lm hm by (intro exI [of _ l] exI [of _ h]) simp
qed

theorem convertParts_roundtrip_witness:
  "(0::int) \<le> 340282366920938463463374607431768211455 \<and>
   (340282366920938463463374607431768211455::int) < 2 ^ 128 \<and>
   convertPartsToAmount
     (balance_0 (convertAmountToParts 340282366920938463463374607431768211455))
     (balance_1 (convertAmountToParts 340282366920938463463374607431768211455))
     = Some 340282366920938463463374607431768211455 \<and>
   convertAmountToParts 340282366920938463463374607431768211455
     = \<lparr> balance_0 = ''-1'', balance_1 = ''-1'' \<rparr>"
proof -
  have a: "(0::int) \<le> 340282366920938463463374607431768211455" by simp
  have b: "(340282366920938463463374607431768211455::int) < 2 ^ 128" by simp
  have c: "convertAmountToParts 340282366920938463463374607431768211455
             = \<lparr> balance_0 = ''-1'', balance_1 = ''-1'' \<rparr>"
    by (simp add: convertAmountToParts_def and_MAX_64_UNSIGNED take_bit_eq_mod drop_bit_eq_div
        MAX_64_SIGNED_def MAX_64_UNSIGNED_def Let_def toString_bigint_def toString_nat.simps
        digit_char_def char_of_eq_iff)
  from convertParts_roundtrip [OF a b] a b c show ?thesis by simp
qed

section \<open>The allocation primitive\<close>

lemma map_of_update: "map_of (AList.update k v al) k' = (if k' = k then Some v else map_of al k')"
  by (simp add: update_conv')

text \<open>
  Claim C4. For every call \<open>allocate(utxo, dune_id, amt)\<close> on an existing output, with
  \<open>unallocated = U[dune_id]\<close> defined, the amount transferred is \<open>give = unallocated\<close> when
  \<open>amt = 0\<close> or \<open>unallocated < amt\<close>, and \<open>give = amt\<close> otherwise; the call returns, \<open>give\<close> is
  subtracted from \<open>U[dune_id]\<close>, added to \<open>utxo.dune_balances[dune_id]\<close> and accumulated into
  \<open>transfers[to][dune_id]\<close>, where \<open>to\<close> is \<open>"burn"\<close> when the output's \<open>address_id\<close> is 2 and
  the address id otherwise. No other entry of \<open>U\<close> and no other output changes.
\<close>

theorem allocate_gives:
  assumes U: "map_of (UnallocatedDunes s) duneId = Some unallocated"
    and u: "utxo < length (pendingUtxos s)"
  shows "give_of unallocated amt =
           (if amt = 0 \<or> unallocated < amt then unallocated else amt) \<and>
    (\<exists>s'. allocate s utxo duneId amt = Inr s' \<and>
       map_of (UnallocatedDunes s') duneId = Some (unallocated - give_of unallocated amt) \<and>
       balance_of (pendingUtxos s' ! utxo) duneId =
         balance_of (pendingUtxos s ! utxo) duneId + give_of unallocated amt \<and>
       transferred (transfers s') (toAddress_of (pendingUtxos s ! utxo)) duneId =
         transferred (transfers s) (toAddress_of (pendingUtxos s ! utxo)) duneId
           + give_of unallocated amt \<and>
       toAddress_of (pendingUtxos s ! utxo) =
         (if address_id (pendingUtxos s ! utxo) = 2 then Burn
          else Addr (address_id (pendingUtxos s ! utxo))) \<and>
       (\<forall>k. k \<noteq> duneId \<longrightarrow> map_of (UnallocatedDunes s') k = map_of (UnallocatedDunes s) k) \<and>
       length (pendingUtxos s') = length (pendingUtxos s) \<and>
       (\<forall>j. j \<noteq> utxo \<longrightarrow> pendingUtxos s' ! j = pendingUtxos s ! j))"
  using U u
  by (auto simp add: allocate_def Let_def balance_of_def transferred_def toAddress_of_def
      give_of_def map_of_update split: option.splits)

theorem allocate_gives_witness:
  "map_of (UnallocatedDunes (ex_engine 7 ex_outputs)) ''840100:1'' = Some 7 \<and>
   2 < length (pendingUtxos (ex_engine 7 ex_outputs)) \<and>
   give_of 7 5 = 5 \<and>
   (\<exists>s'. allocate (ex_engine 7 ex_outputs) 2 ''840100:1'' 5 = Inr s' \<and>
      map_of (UnallocatedDunes s') ''840100:1'' = Some 2 \<and>
      balance_of (pendingUtxos s' ! 2) ''840100:1'' = 5 \<and>
      transferred (transfers s') Burn ''840100:1'' = 5)"
proof -
  let ?s = "ex_engine 7 ex_outputs"
  have a: "map_of (UnallocatedDunes ?s) ''840100:1'' = Some 7" by (simp add: ex_engine_def)
  have b: "2 < length (pendingUtxos ?s)" by (simp add: ex_engine_def ex_outputs_def)
  have g: "give_of 7 5 = 5" by (simp add: give_of_def)
  have b0: "balance_of (pendingUtxos ?s ! 2) ''840100:1'' = 0"
    by (simp add: ex_engine_def ex_outputs_def ex_output_def balance_of_def)
  have to: "toAddress_of (pendingUtxos ?s ! 2) = Burn"
    by (simp add: ex_engine_def ex_outputs_def ex_output_def toAddress_of_def)
  have t0: "transferred (transfers ?s) Burn ''840100:1'' = 0"
    by (simp add: ex_engine_def transferred_def)
  from allocate_gives [OF a b, of 5] obtain s' where
    r: "allocate ?s 2 ''840100:1'' 5 = Inr s'"
    and u: "map_of (UnallocatedDunes s') ''840100:1'' = Some (7 - give_of 7 5)"
    and bl: "balance_of (pendingUtxos s' ! 2) ''840100:1'' =
             balance_of (pendingUtxos ?s ! 2) ''840100:1'' + give_of 7 5"
    and tr: "transferred (transfers s') (toAddress_of (pendingUtxos ?s ! 2)) ''840100:1'' =
             transferred (transfers ?s) (toAddress_of (pendingUtxos ?s ! 2)) ''840100:1''
               + give_of 7 5"
    by blast
  have "map_of (UnallocatedDunes s') ''840100:1'' = Some 2" using u g by simp
  moreover have "balance_of (pendingUtxos s' ! 2) ''840100:1'' = 5" using bl g b0 by simp
  moreover have "transferred (transfers s') Burn ''840100:1'' = 5" using tr g to t0 by simp
  ultimately show ?thesis using a b g r by blast
qed

lemma allocate_effect:
  assumes U: "map_of (UnallocatedDunes s) k = Some h"
    and u: "p < length (pendingUtxos s)"
  shows "\<exists>s'. allocate s p k amt = Inr s' \<and>
    UnallocatedDunes s' = AList.update k (h - give_of h amt) (UnallocatedDunes s) \<and>
    length (pendingUtxos s') = length (pendingUtxos s) \<and>
    (\<forall>j. j \<noteq> p \<longrightarrow> pendingUtxos s' ! j = pendingUtxos s ! j) \<and>
    address_id (pendingUtxos s' ! p) = address_id (pendingUtxos s ! p) \<and>
    (\<forall>k'. balance_of (pendingUtxos s' ! p) k' =
       balance_of (pendingUtxos s ! p) k' + (if k' = k then give_of h amt else 0))"
  using U u
  by (auto simp add: allocate_def Let_def balance_of_def give_of_def map_of_update
      split: option.splits)

section \<open>The even split of an edict with amount zero\<close>

lemma sum_list_all_zero: "\<forall>b\<in>set xs. b = (0::int) \<Longrightarrow> sum_list xs = 0"
  by (induction xs) auto

lemma exact_each:
  assumes "length ps = length amts"
    and "distinct ps" and "\<forall>p\<in>set ps. p < length (pendingUtxos s)"
    and "\<forall>a\<in>set amts. 0 \<le> a" and "sorted_wrt (\<ge>) amts"
    and "map_of (UnallocatedDunes s) k = Some (sum_list amts)"
  shows "\<exists>s'. allocate_each s (map (\<lambda>(p, a). (p, k, a)) (zip ps amts)) = Inr s' \<and>
    map_of (UnallocatedDunes s') k = Some (if ps = [] then sum_list amts else 0) \<and>
    length (pendingUtxos s') = length (pendingUtxos s) \<and>
    (\<forall>i<length ps. balance_of (pendingUtxos s' ! (ps ! i)) k =
        balance_of (pendingUtxos s ! (ps ! i)) k + amts ! i) \<and>
    (\<forall>j. j \<notin> set ps \<longrightarrow> pendingUtxos s' ! j = pendingUtxos s ! j)"
  using assms
proof (induction ps amts arbitrary: s rule: list_induct2)
  case Nil
  then show ?case by simp
next
  case (Cons p ps a amts)
  let ?h = "sum_list (a # amts)"
  have nn: "0 \<le> sum_list amts" using Cons.prems by (simp add: sum_list_nonneg)
  have a0: "0 \<le> a" using Cons.prems by simp
  have g: "give_of ?h a = a"
  proof (cases "a = 0")
    case True
    have "\<forall>b\<in>set amts. b = 0" using Cons.prems True by fastforce
    then have z: "sum_list amts = 0" by (rule sum_list_all_zero)
    then show ?thesis using True z by (simp add: give_of_def)
  next
    case False
    then show ?thesis using nn a0 by (simp add: give_of_def)
  qed
  have U: "map_of (UnallocatedDunes s) k = Some ?h" using Cons.prems by simp
  have pl: "p < length (pendingUtxos s)" using Cons.prems by simp
  from allocate_effect [OF U pl, of a] g obtain s1 where
    s1: "allocate s p k a = Inr s1"
    and U1: "UnallocatedDunes s1 = AList.update k (?h - a) (UnallocatedDunes s)"
    and l1: "length (pendingUtxos s1) = length (pendingUtxos s)"
    and o1: "\<forall>j. j \<noteq> p \<longrightarrow> pendingUtxos s1 ! j = pendingUtxos s ! j"
    and b1: "\<forall>k'. balance_of (pendingUtxos s1 ! p) k' =
       balance_of (pendingUtxos s ! p) k' + (if k' = k then a else 0)"
    by auto
  have U1': "map_of (UnallocatedDunes s1) k = Some (sum_list amts)"
    by (simp add: U1 map_of_update)
  have z: "ps = [] \<Longrightarrow> sum_list amts = 0" using Cons.hyps by simp
  from Cons.IH [of s1] Cons.prems U1' l1 obtain s' where
    s': "allocate_each s1 (map (\<lambda>(p, a). (p, k, a)) (zip ps amts)) = Inr s'"
    and Uf: "map_of (UnallocatedDunes s') k = Some (if ps = [] then sum_list amts else 0)"
    and lf: "length (pendingUtxos s') = length (pendingUtxos s1)"
    and bf: "\<forall>i<length ps. balance_of (pendingUtxos s' ! (ps ! i)) k =
        balance_of (pendingUtxos s1 ! (ps ! i)) k + amts ! i"
    and of': "\<forall>j. j \<notin> set ps \<longrightarrow> pendingUtxos s' ! j = pendingUtxos s1 ! j"
    by auto
  have Uf': "map_of (UnallocatedDunes s') k = Some 0" using Uf z by (cases "ps = []") auto
  have pn: "p \<notin> set ps" using Cons.prems by simp
  have bal: "\<forall>i<length (p # ps). balance_of (pendingUtxos s' ! ((p # ps) ! i)) k =
        balance_of (pendingUtxos s ! ((p # ps) ! i)) k + (a # amts) ! i"
  proof (intro allI impI)
    fix i assume i: "i < length (p # ps)"
    show "balance_of (pendingUtxos s' ! ((p # ps) ! i)) k =
        balance_of (pendingUtxos s ! ((p # ps) ! i)) k + (a # amts) ! i"
    proof (cases i)
      case 0
      then show ?thesis using of' pn b1 by simp
    next
      case (Suc m)
      then have m: "m < length ps" using i by simp
      then have "ps ! m \<noteq> p" using pn by (metis nth_mem)
      then show ?thesis using Suc bf m o1 by simp
    qed
  qed
  show ?case using s1 s' Uf' lf l1 bal of' o1 by simp
qed

lemma sum_split_amounts:
  assumes "0 \<le> r"
  shows "sum_list (map (\<lambda>i. if int i < r then a + 1 else a) [0 ..< n]) = int n * a + min (int n) r"
  using assms by (induction n) (auto simp add: algebra_simps min_def)

lemma sorted_split_amounts:
  "sorted_wrt (\<ge>) (map (\<lambda>i. if int i < r then a + 1 else (a::int)) [0 ..< n])"
  by (induction n) (auto simp add: sorted_wrt_append)


lemma nonOpReturnOutputs_props:
  "distinct (nonOpReturnOutputs pending)"
  "\<forall>p\<in>set (nonOpReturnOutputs pending). p < length pending"
  by (simp_all add: nonOpReturnOutputs_def)

lemma split_calls_eq:
  "map (\<lambda>(index, utxo). (utxo, k, f index)) (zip [0 ..< length outs] outs) =
   map (\<lambda>(p, a). (p, k, a)) (zip outs (map f [0 ..< length outs]))"
  by (rule nth_equalityI) simp_all

lemma sdiv_smod_pos:
  assumes "0 < (u::int)" "0 < n"
  shows "u sdiv n = u div n" "u smod n = u mod n"
  using assms by (simp_all add: signed_divide_int_def signed_modulo_int_def)

text \<open>
  Claim C5. For an edict with \<open>amount = 0\<close> and \<open>output\<close> equal to the number of outputs, on a
  known dune with \<open>U[dune_id] = u > 0\<close>, the loop body returns and the \<open>i\<close>-th of the \<open>n\<close>
  non-\<open>OP_RETURN\<close> outputs receives \<open>u div n\<close>, plus one when \<open>i < u mod n\<close>; with \<open>n > 0\<close>
  nothing of the dune stays unallocated, and no other output changes. The witness is
  scenario 3 of the specification: \<open>u = 11\<close> over two outputs gives 6 and 5.
\<close>

theorem even_split:
  assumes ex: "list_ex (\<lambda>d. dune_protocol_id d = edict_id e) existingDunes"
    and U: "map_of (UnallocatedDunes s) (edict_id e) = Some u" and u: "0 < u"
    and am: "edict_amount e = 0" and out: "edict_output e = length (pendingUtxos s)"
  shows "\<exists>s'. processEdict existingDunes s e = Inr s' \<and>
       (\<forall>i<length (nonOpReturnOutputs (pendingUtxos s)).
          balance_of (pendingUtxos s' ! (nonOpReturnOutputs (pendingUtxos s) ! i)) (edict_id e) =
          balance_of (pendingUtxos s ! (nonOpReturnOutputs (pendingUtxos s) ! i)) (edict_id e)
            + u div int (length (nonOpReturnOutputs (pendingUtxos s)))
            + (if int i < u mod int (length (nonOpReturnOutputs (pendingUtxos s))) then 1 else 0)) \<and>
       (nonOpReturnOutputs (pendingUtxos s) \<noteq> [] \<longrightarrow>
          map_of (UnallocatedDunes s') (edict_id e) = Some 0) \<and>
       (\<forall>j. j \<notin> set (nonOpReturnOutputs (pendingUtxos s)) \<longrightarrow>
          pendingUtxos s' ! j = pendingUtxos s ! j)"
proof (cases "nonOpReturnOutputs (pendingUtxos s) = []")
  case True
  then show ?thesis using ex U u am out by (simp add: processEdict_def Let_def)
next
  case False
  let ?outs = "nonOpReturnOutputs (pendingUtxos s)"
  let ?n = "int (length ?outs)"
  let ?f = "\<lambda>i. if int i < u smod ?n then u sdiv ?n + 1 else u sdiv ?n"
  let ?amts = "map ?f [0 ..< length ?outs]"
  have n: "0 < ?n" using False by simp
  have d: "u sdiv ?n = u div ?n" and m: "u smod ?n = u mod ?n"
    using sdiv_smod_pos [OF u n] by simp_all
  have r0: "0 \<le> u mod ?n" and rn: "u mod ?n < ?n" using n by simp_all
  have a0: "0 \<le> u div ?n" using u n by (simp add: pos_imp_zdiv_nonneg_iff)
  have "sum_list (map (\<lambda>i. if int i < u mod ?n then u div ?n + 1 else u div ?n)
                  [0 ..< length ?outs]) = ?n * (u div ?n) + u mod ?n"
    using sum_split_amounts [OF r0, of "u div ?n" "length ?outs"] rn by (simp add: min_def)
  then have sum: "sum_list ?amts = u"
    unfolding d m by simp
  have nonneg: "\<forall>a\<in>set ?amts. 0 \<le> a" using a0 by (auto simp add: d)
  have srt: "sorted_wrt (\<ge>) ?amts" by (rule sorted_split_amounts)
  have U': "map_of (UnallocatedDunes s) (edict_id e) = Some (sum_list ?amts)"
    using U sum by simp
  have len: "length ?outs = length ?amts" by simp
  from exact_each [OF len nonOpReturnOutputs_props(1) nonOpReturnOutputs_props(2) nonneg srt U']
  obtain s' where
    r: "allocate_each s (map (\<lambda>(p, a). (p, edict_id e, a)) (zip ?outs ?amts)) = Inr s'"
    and Uf: "map_of (UnallocatedDunes s') (edict_id e) = Some (if ?outs = [] then sum_list ?amts else 0)"
    and bf: "\<forall>i<length ?outs. balance_of (pendingUtxos s' ! (?outs ! i)) (edict_id e) =
        balance_of (pendingUtxos s ! (?outs ! i)) (edict_id e) + ?amts ! i"
    and fr: "\<forall>j. j \<notin> set ?outs \<longrightarrow> pendingUtxos s' ! j = pendingUtxos s ! j"
    by blast
  have pe: "processEdict existingDunes s e = Inr s'"
    using ex U u am out False r
    by (simp add: processEdict_def Let_def split_calls_eq)
  have bal: "\<forall>i<length ?outs.
          balance_of (pendingUtxos s' ! (?outs ! i)) (edict_id e) =
          balance_of (pendingUtxos s ! (?outs ! i)) (edict_id e)
            + u div ?n + (if int i < u mod ?n then 1 else 0)"
    using bf by (simp add: d m)
  show ?thesis using pe bal Uf fr False by simp
qed


theorem even_split_witness:
  "list_ex (\<lambda>d. dune_protocol_id d = edict_id \<lparr> edict_id = ''840100:1'', edict_amount = 0, edict_output = 3 \<rparr>) [ex_dune] \<and>
   map_of (UnallocatedDunes (ex_engine 11 ex_outputs))
     ''840100:1'' = Some 11 \<and>
   edict_amount \<lparr> edict_id = ''840100:1'', edict_amount = 0, edict_output = 3 \<rparr> = 0 \<and>
   edict_output \<lparr> edict_id = ''840100:1'', edict_amount = 0, edict_output = 3 \<rparr>
     = length (pendingUtxos (ex_engine 11 ex_outputs)) \<and>
   nonOpReturnOutputs (pendingUtxos (ex_engine 11 ex_outputs)) = [0, 1] \<and>
   (\<exists>s'. processEdict [ex_dune] (ex_engine 11 ex_outputs)
            \<lparr> edict_id = ''840100:1'', edict_amount = 0, edict_output = 3 \<rparr> = Inr s' \<and>
      balance_of (pendingUtxos s' ! 0) ''840100:1'' = 6 \<and>
      balance_of (pendingUtxos s' ! 1) ''840100:1'' = 5 \<and>
      map_of (UnallocatedDunes s') ''840100:1'' = Some 0 \<and>
      pendingUtxos s' ! 2 = ex_output 2 2)"
proof -
  let ?s = "ex_engine 11 ex_outputs"
  let ?e = "\<lparr> edict_id = ''840100:1'', edict_amount = 0, edict_output = 3 \<rparr>"
  have h1: "list_ex (\<lambda>d. dune_protocol_id d = edict_id ?e) [ex_dune]"
    by (simp add: ex_dune_def)
  have h2: "map_of (UnallocatedDunes ?s) (edict_id ?e) = Some 11" by (simp add: ex_engine_def)
  have h3: "(0::int) < 11" by simp
  have h4: "edict_amount ?e = 0" by simp
  have h5: "edict_output ?e = length (pendingUtxos ?s)"
    by (simp add: ex_engine_def ex_outputs_def)
  have outs: "nonOpReturnOutputs (pendingUtxos ?s) = [0, 1]"
    by (simp add: nonOpReturnOutputs_def ex_engine_def ex_outputs_def ex_output_def)
  from even_split [OF h1 h2 h3 h4 h5] obtain s' where
    r: "processEdict [ex_dune] ?s ?e = Inr s'"
    and b: "\<forall>i<length (nonOpReturnOutputs (pendingUtxos ?s)).
          balance_of (pendingUtxos s' ! (nonOpReturnOutputs (pendingUtxos ?s) ! i)) (edict_id ?e) =
          balance_of (pendingUtxos ?s ! (nonOpReturnOutputs (pendingUtxos ?s) ! i)) (edict_id ?e)
            + 11 div int (length (nonOpReturnOutputs (pendingUtxos ?s)))
            + (if int i < 11 mod int (length (nonOpReturnOutputs (pendingUtxos ?s))) then 1 else 0)"
    and z: "nonOpReturnOutputs (pendingUtxos ?s) \<noteq> [] \<longrightarrow>
          map_of (UnallocatedDunes s') (edict_id ?e) = Some 0"
    and f: "\<forall>j. j \<notin> set (nonOpReturnOutputs (pendingUtxos ?s)) \<longrightarrow>
          pendingUtxos s' ! j = pendingUtxos ?s ! j"
    by blast
  have p0: "balance_of (pendingUtxos ?s ! 0) ''840100:1'' = 0"
    and p1: "balance_of (pendingUtxos ?s ! Suc 0) ''840100:1'' = 0"
    and p2: "pendingUtxos ?s ! 2 = ex_output 2 2"
    by (simp_all add: ex_engine_def ex_outputs_def ex_output_def balance_of_def)
  have b0: "balance_of (pendingUtxos s' ! 0) ''840100:1'' = 6"
    using b [rule_format, of 0] by (simp add: outs p0)
  have b1: "balance_of (pendingUtxos s' ! 1) ''840100:1'' = 5"
    using b [rule_format, of 1] by (simp add: outs p1)
  have z': "map_of (UnallocatedDunes s') ''840100:1'' = Some 0" using z by (simp add: outs)
  have f': "pendingUtxos s' ! 2 = ex_output 2 2"
    using f [rule_format, of 2] by (simp add: outs p2)
  show ?thesis using h1 h2 h4 h5 outs r b0 b1 z' f' by simp
qed

section \<open>The pointer sweep\<close>

lemma update_at_key:
  "k \<notin> fst ` set Z \<Longrightarrow> AList.update k x (Z @ (k, v) # R) = Z @ (k, x) # R"
  by (induction Z) auto

lemma map_of_at_key:
  "k \<notin> fst ` set Z \<Longrightarrow> map_of (Z @ (k, v) # R) k = Some v"
  by (induction Z) auto

lemma sweep_each:
  assumes "UnallocatedDunes s = Z @ R" and "distinct (map fst (Z @ R))"
    and "p < length (pendingUtxos s)"
  shows "\<exists>s'. allocate_each s (map (\<lambda>(k, v). (p, k, v)) R) = Inr s' \<and>
    UnallocatedDunes s' = Z @ map (\<lambda>(k, v). (k, 0)) R \<and>
    length (pendingUtxos s') = length (pendingUtxos s) \<and>
    (\<forall>j. j \<noteq> p \<longrightarrow> pendingUtxos s' ! j = pendingUtxos s ! j) \<and>
    (\<forall>k. balance_of (pendingUtxos s' ! p) k =
       balance_of (pendingUtxos s ! p) k + (case map_of R k of None \<Rightarrow> 0 | Some v \<Rightarrow> v))"
  using assms
proof (induction R arbitrary: s Z)
  case Nil
  then show ?case by simp
next
  case (Cons kv R)
  obtain k v where kv: "kv = (k, v)" by (cases kv)
  have kZ: "k \<notin> fst ` set Z" and kR: "k \<notin> fst ` set R"
    using Cons.prems kv by auto
  have "map_of (Z @ (k, v) # R) k = Some v" using kZ by (rule map_of_at_key)
  then have U: "map_of (UnallocatedDunes s) k = Some v"
    using Cons.prems(1) kv by simp
  have g: "give_of v v = v" by (simp add: give_of_def)
  from allocate_effect [OF U Cons.prems(3), of v] g obtain s1 where
    s1: "allocate s p k v = Inr s1"
    and U1: "UnallocatedDunes s1 = AList.update k 0 (UnallocatedDunes s)"
    and l1: "length (pendingUtxos s1) = length (pendingUtxos s)"
    and o1: "\<forall>j. j \<noteq> p \<longrightarrow> pendingUtxos s1 ! j = pendingUtxos s ! j"
    and b1: "\<forall>k'. balance_of (pendingUtxos s1 ! p) k' =
       balance_of (pendingUtxos s ! p) k' + (if k' = k then v else 0)"
    by auto
  have "AList.update k 0 (Z @ (k, v) # R) = Z @ (k, 0) # R" using kZ by (rule update_at_key)
  then have U1': "UnallocatedDunes s1 = (Z @ [(k, 0)]) @ R"
    using U1 Cons.prems(1) kv by simp
  have d1: "distinct (map fst ((Z @ [(k, 0)]) @ R))" using Cons.prems kv by simp
  have p1: "p < length (pendingUtxos s1)" using l1 Cons.prems by simp
  from Cons.IH [OF U1' d1 p1] obtain s' where
    s': "allocate_each s1 (map (\<lambda>(k, v). (p, k, v)) R) = Inr s'"
    and Uf: "UnallocatedDunes s' = (Z @ [(k, 0)]) @ map (\<lambda>(k, v). (k, 0)) R"
    and lf: "length (pendingUtxos s') = length (pendingUtxos s1)"
    and of': "\<forall>j. j \<noteq> p \<longrightarrow> pendingUtxos s' ! j = pendingUtxos s1 ! j"
    and bf: "\<forall>k'. balance_of (pendingUtxos s' ! p) k' =
       balance_of (pendingUtxos s1 ! p) k' + (case map_of R k' of None \<Rightarrow> 0 | Some v \<Rightarrow> v)"
    by blast
  have none: "map_of R k = None" using kR by (simp add: map_of_eq_None_iff)
  have bal: "\<forall>k'. balance_of (pendingUtxos s' ! p) k' =
       balance_of (pendingUtxos s ! p) k' +
       (case map_of (kv # R) k' of None \<Rightarrow> 0 | Some v \<Rightarrow> v)"
    using bf b1 none kv by auto
  show ?case using s1 s' Uf lf l1 of' o1 bal kv by simp
qed

lemma pointerOutput_lt:
  "pointerOutput ptr pending = Some i \<Longrightarrow> i < length pending"
proof -
  assume a: "pointerOutput ptr pending = Some i"
  have f: "\<And>j. find (\<lambda>i. address_id (pending ! i) = 2) [0 ..< length pending] = Some j
              \<Longrightarrow> j < length pending"
    by (auto simp add: find_Some_iff)
  have n: "\<And>j r. nonOpReturnOutputs pending = j # r \<Longrightarrow> j < length pending"
    using nonOpReturnOutputs_props(2) [of pending] by simp
  show ?thesis
    using a f n
    by (auto simp add: pointerOutput_def Let_def split: option.splits list.splits if_splits)
qed

lemma pointerOutput_total:
  assumes "pending \<noteq> []"
  shows "\<exists>i. pointerOutput ptr pending = Some i"
proof (cases "nonOpReturnOutputs pending")
  case Nil
  then have "\<forall>i<length pending. address_id (pending ! i) = 2"
    by (auto simp add: nonOpReturnOutputs_def filter_empty_conv)
  then have "address_id (pending ! 0) = 2" using assms by simp
  then have "find (\<lambda>i. address_id (pending ! i) = 2) [0 ..< length pending] \<noteq> None"
    using assms by (auto simp add: find_None_iff)
  then show ?thesis using Nil
    by (cases ptr) (auto simp add: pointerOutput_def Let_def)
next
  case (Cons j r)
  then show ?thesis
    by (cases ptr) (auto simp add: pointerOutput_def Let_def)
qed

lemma pointer_sweep_effect:
  assumes d: "distinct (map fst (UnallocatedDunes s))"
    and po: "pointerOutput ptr (pendingUtxos s) = Some p"
  shows "\<exists>s'. pointer_sweep ptr s = Inr s' \<and>
    UnallocatedDunes s' = map (\<lambda>(k, v). (k, 0)) (UnallocatedDunes s) \<and>
    length (pendingUtxos s') = length (pendingUtxos s) \<and>
    (\<forall>j. j \<noteq> p \<longrightarrow> pendingUtxos s' ! j = pendingUtxos s ! j) \<and>
    (\<forall>k. balance_of (pendingUtxos s' ! p) k =
       balance_of (pendingUtxos s ! p) k +
       (case map_of (UnallocatedDunes s) k of None \<Rightarrow> 0 | Some v \<Rightarrow> v))"
proof -
  have p: "p < length (pendingUtxos s)" using po by (rule pointerOutput_lt)
  have a: "UnallocatedDunes s = [] @ UnallocatedDunes s" by simp
  have d': "distinct (map fst ([] @ UnallocatedDunes s))" using d by simp
  from sweep_each [OF a d' p] show ?thesis
    using po by (simp add: pointer_sweep_def)
qed


lemma allocate_preserves:
  assumes "allocate s p k a = Inr s'"
  shows "length (pendingUtxos s') = length (pendingUtxos s)"
    and "distinct (map fst (UnallocatedDunes s)) \<Longrightarrow> distinct (map fst (UnallocatedDunes s'))"
    and "map_of (UnallocatedDunes s) k' \<noteq> None \<Longrightarrow> map_of (UnallocatedDunes s') k' \<noteq> None"
  using assms
  by (auto simp add: allocate_def Let_def distinct_update map_of_update
      split: option.splits if_splits)

lemma allocate_each_preserves:
  assumes "allocate_each s calls = Inr s'"
  shows "length (pendingUtxos s') = length (pendingUtxos s) \<and>
     (distinct (map fst (UnallocatedDunes s)) \<longrightarrow> distinct (map fst (UnallocatedDunes s'))) \<and>
     (map_of (UnallocatedDunes s) k' \<noteq> None \<longrightarrow> map_of (UnallocatedDunes s') k' \<noteq> None)"
  using assms
proof (induction calls arbitrary: s)
  case Nil
  then show ?case by simp
next
  case (Cons c calls)
  obtain p k a where c: "c = (p, k, a)" by (cases c)
  from Cons.prems c obtain s1 where s1: "allocate s p k a = Inr s1"
    and r: "allocate_each s1 calls = Inr s'"
    by (auto split: sum.splits)
  from Cons.IH [OF r] allocate_preserves [OF s1] show ?case by auto
qed

lemma allocate_each_total:
  assumes "\<forall>c\<in>set calls. fst c < length (pendingUtxos s) \<and>
             map_of (UnallocatedDunes s) (fst (snd c)) \<noteq> None"
  shows "\<exists>s'. allocate_each s calls = Inr s'"
  using assms
proof (induction calls arbitrary: s)
  case Nil
  then show ?case by simp
next
  case (Cons c calls)
  obtain p k a where c: "c = (p, k, a)" by (cases c)
  from Cons.prems c obtain h where h: "map_of (UnallocatedDunes s) k = Some h"
    and p: "p < length (pendingUtxos s)" by auto
  from allocate_effect [OF h p, of a] obtain s1 where s1: "allocate s p k a = Inr s1" by blast
  have "\<forall>c\<in>set calls. fst c < length (pendingUtxos s1) \<and>
             map_of (UnallocatedDunes s1) (fst (snd c)) \<noteq> None"
    using Cons.prems allocate_preserves(1) [OF s1] allocate_preserves(3) [OF s1] by auto
  from Cons.IH [OF this] show ?case using s1 c by simp
qed

lemma processEdict_preserves:
  assumes "processEdict ex s e = Inr s'"
  shows "length (pendingUtxos s') = length (pendingUtxos s) \<and>
     (distinct (map fst (UnallocatedDunes s)) \<longrightarrow> distinct (map fst (UnallocatedDunes s')))"
  using assms allocate_each_preserves allocate_preserves(1,2)
  by (auto simp add: processEdict_def Let_def split: if_splits option.splits)

lemma processEdict_total:
  assumes "edict_output e \<le> length (pendingUtxos s)"
  shows "\<exists>s'. processEdict ex s e = Inr s'"
proof (cases "map_of (UnallocatedDunes s) (edict_id e)")
  case None
  then show ?thesis by (simp add: processEdict_def)
next
  case (Some h)
  have t: "\<And>f. \<exists>s'. allocate_each s
       (map (\<lambda>(index, utxo). (utxo, edict_id e, f index))
          (zip [0 ..< length (nonOpReturnOutputs (pendingUtxos s))]
             (nonOpReturnOutputs (pendingUtxos s)))) = Inr s'"
    using Some nonOpReturnOutputs_props(2) [of "pendingUtxos s"]
    by (intro allocate_each_total) (auto dest: set_zip_rightD)
  have t2: "\<exists>s'. allocate_each s
       (map (\<lambda>utxo. (utxo, edict_id e, edict_amount e))
          (nonOpReturnOutputs (pendingUtxos s))) = Inr s'"
    using Some nonOpReturnOutputs_props(2) [of "pendingUtxos s"]
    by (intro allocate_each_total) auto
  have t3: "edict_output e \<noteq> length (pendingUtxos s) \<Longrightarrow>
     \<exists>s'. allocate s (edict_output e) (edict_id e) (edict_amount e) = Inr s'"
    using allocate_effect [OF Some, of "edict_output e" "edict_amount e"] assms by auto
  show ?thesis using Some t t2 t3 by (simp add: processEdict_def Let_def)
qed

lemma edict_loop_preserves:
  assumes "edict_loop ex s es = Inr s'"
  shows "length (pendingUtxos s') = length (pendingUtxos s) \<and>
     (distinct (map fst (UnallocatedDunes s)) \<longrightarrow> distinct (map fst (UnallocatedDunes s')))"
  using assms
proof (induction es arbitrary: s)
  case Nil
  then show ?case by simp
next
  case (Cons e es)
  from Cons.prems obtain s1 where s1: "processEdict ex s e = Inr s1"
    and r: "edict_loop ex s1 es = Inr s'"
    by (auto split: sum.splits)
  from Cons.IH [OF r] processEdict_preserves [OF s1] show ?case by auto
qed

lemma edict_loop_total:
  assumes "\<forall>e\<in>set es. edict_output e \<le> length (pendingUtxos s)"
  shows "\<exists>s'. edict_loop ex s es = Inr s'"
  using assms
proof (induction es arbitrary: s)
  case Nil
  then show ?case by simp
next
  case (Cons e es)
  from processEdict_total [of e s ex] Cons.prems obtain s1 where
    s1: "processEdict ex s e = Inr s1" by auto
  have "\<forall>e\<in>set es. edict_output e \<le> length (pendingUtxos s1)"
    using Cons.prems processEdict_preserves [OF s1] by simp
  from Cons.IH [OF this] show ?case using s1 by simp
qed

lemma edicts_phase_preserves:
  assumes "edicts_phase s tx st = Inr s'"
  shows "length (pendingUtxos s') = length (pendingUtxos s) \<and>
     (distinct (map fst (UnallocatedDunes s)) \<longrightarrow> distinct (map fst (UnallocatedDunes s')))"
  using assms edict_loop_preserves
  by (auto simp add: edicts_phase_def Let_def split: option.splits)

lemma edicts_phase_total:
  assumes "\<forall>e\<in>set (case edicts (dunestone tx) of None \<Rightarrow> [] | Some es \<Rightarrow> es).
             edict_output e \<le> length (pendingUtxos s)"
  shows "\<exists>s'. edicts_phase s tx st = Inr s'"
proof (cases "edicts (dunestone tx)")
  case None
  then show ?thesis by (simp add: edicts_phase_def)
next
  case (Some es)
  then show ?thesis
    using assms by (simp add: edicts_phase_def Let_def) (rule edict_loop_total, simp)
qed

text \<open>
  Claim C2. For every transaction whose dunestone is not a cenotaph, when \<open>processEdicts\<close>
  returns, the unallocated bag maps every dune id to zero, and the residue left by the edicts
  has been added to one pending output (the one \<open>pointerOutput\<close> chooses) while every other
  output is as the edicts left it. \<open>processEdicts\<close> does return when the transaction has an
  output and no edict names an output beyond the number of outputs.
\<close>

theorem pointer_sweep_complete:
  assumes nc: "\<not> cenotaph (dunestone tx)"
    and d: "distinct (map fst (UnallocatedDunes s))"
  shows "(\<forall>s'. processEdicts s tx st = Inr s' \<longrightarrow>
            all_zero (UnallocatedDunes s') \<and>
            (\<exists>s1 p. edicts_phase s tx st = Inr s1 \<and>
               pointerOutput (pointer (dunestone tx)) (pendingUtxos s1) = Some p \<and>
               p < length (pendingUtxos s1) \<and>
               (\<forall>j. j \<noteq> p \<longrightarrow> pendingUtxos s' ! j = pendingUtxos s1 ! j) \<and>
               (\<forall>k. balance_of (pendingUtxos s' ! p) k =
                  balance_of (pendingUtxos s1 ! p) k +
                  (case map_of (UnallocatedDunes s1) k of None \<Rightarrow> 0 | Some v \<Rightarrow> v)))) \<and>
         (pendingUtxos s \<noteq> [] \<and>
          (\<forall>e\<in>set (case edicts (dunestone tx) of None \<Rightarrow> [] | Some es \<Rightarrow> es).
             edict_output e \<le> length (pendingUtxos s))
          \<longrightarrow> (\<exists>s'. processEdicts s tx st = Inr s'))"
proof (intro conjI allI impI)
  fix s' assume r: "processEdicts s tx st = Inr s'"
  from r nc obtain s1 where s1: "edicts_phase s tx st = Inr s1"
    and sw: "pointer_sweep (pointer (dunestone tx)) s1 = Inr s'"
    by (auto simp add: processEdicts_def split: sum.splits)
  have d1: "distinct (map fst (UnallocatedDunes s1))"
    using edicts_phase_preserves [OF s1] d by simp
  from sw obtain p where po: "pointerOutput (pointer (dunestone tx)) (pendingUtxos s1) = Some p"
    by (auto simp add: pointer_sweep_def split: option.splits)
  from pointer_sweep_effect [OF d1 po] sw have
    U: "UnallocatedDunes s' = map (\<lambda>(k, v). (k, 0)) (UnallocatedDunes s1)"
    and fr: "\<forall>j. j \<noteq> p \<longrightarrow> pendingUtxos s' ! j = pendingUtxos s1 ! j"
    and bl: "\<forall>k. balance_of (pendingUtxos s' ! p) k =
       balance_of (pendingUtxos s1 ! p) k +
       (case map_of (UnallocatedDunes s1) k of None \<Rightarrow> 0 | Some v \<Rightarrow> v)"
    by auto
  show "all_zero (UnallocatedDunes s')"
    by (auto simp add: U all_zero_def list_all_iff)
  show "\<exists>s1 p. edicts_phase s tx st = Inr s1 \<and>
               pointerOutput (pointer (dunestone tx)) (pendingUtxos s1) = Some p \<and>
               p < length (pendingUtxos s1) \<and>
               (\<forall>j. j \<noteq> p \<longrightarrow> pendingUtxos s' ! j = pendingUtxos s1 ! j) \<and>
               (\<forall>k. balance_of (pendingUtxos s' ! p) k =
                  balance_of (pendingUtxos s1 ! p) k +
                  (case map_of (UnallocatedDunes s1) k of None \<Rightarrow> 0 | Some v \<Rightarrow> v))"
    using s1 po pointerOutput_lt [OF po] fr bl by blast
next
  assume a: "pendingUtxos s \<noteq> [] \<and>
          (\<forall>e\<in>set (case edicts (dunestone tx) of None \<Rightarrow> [] | Some es \<Rightarrow> es).
             edict_output e \<le> length (pendingUtxos s))"
  from edicts_phase_total [of tx s st] a obtain s1 where s1: "edicts_phase s tx st = Inr s1"
    by blast
  have ne: "pendingUtxos s1 \<noteq> []" using edicts_phase_preserves [OF s1] a by auto
  have d1: "distinct (map fst (UnallocatedDunes s1))"
    using edicts_phase_preserves [OF s1] d by simp
  from pointerOutput_total [OF ne] obtain p where
    po: "pointerOutput (pointer (dunestone tx)) (pendingUtxos s1) = Some p" by blast
  from pointer_sweep_effect [OF d1 po] obtain s' where
    "pointer_sweep (pointer (dunestone tx)) s1 = Inr s'" by blast
  then show "\<exists>s'. processEdicts s tx st = Inr s'"
    using s1 nc by (simp add: processEdicts_def)
qed


theorem pointer_sweep_complete_witness:
  "\<not> cenotaph (dunestone (ex_tx (ex_transfer (Some
        [\<lparr> edict_id = ''840100:1'', edict_amount = 5, edict_output = 0 \<rparr>,
         \<lparr> edict_id = ''840100:1'', edict_amount = 0, edict_output = 1 \<rparr>]) None) [])) \<and>
   distinct (map fst (UnallocatedDunes (ex_engine 7 ex_outputs))) \<and>
   pendingUtxos (ex_engine 7 ex_outputs) \<noteq> [] \<and>
   list_all (\<lambda>e. edict_output e \<le> length (pendingUtxos (ex_engine 7 ex_outputs)))
     [\<lparr> edict_id = ''840100:1'', edict_amount = 5, edict_output = 0 \<rparr>,
      \<lparr> edict_id = ''840100:1'', edict_amount = 0, edict_output = 1 \<rparr>] \<and>
   (\<exists>s'. processEdicts (ex_engine 7 ex_outputs)
            (ex_tx (ex_transfer (Some
               [\<lparr> edict_id = ''840100:1'', edict_amount = 5, edict_output = 0 \<rparr>,
                \<lparr> edict_id = ''840100:1'', edict_amount = 0, edict_output = 1 \<rparr>]) None) [])
            (ex_storage [ex_dune]) = Inr s' \<and>
      all_zero (UnallocatedDunes s'))"
proof -
  let ?s = "ex_engine 7 ex_outputs"
  let ?tx = "ex_tx (ex_transfer (Some
        [\<lparr> edict_id = ''840100:1'', edict_amount = 5, edict_output = 0 \<rparr>,
         \<lparr> edict_id = ''840100:1'', edict_amount = 0, edict_output = 1 \<rparr>]) None) []"
  have nc: "\<not> cenotaph (dunestone ?tx)" by (simp add: ex_tx_def ex_transfer_def)
  have d: "distinct (map fst (UnallocatedDunes ?s))" by (simp add: ex_engine_def)
  have ne: "pendingUtxos ?s \<noteq> []" by (simp add: ex_engine_def ex_outputs_def)
  have es: "\<forall>e\<in>set (case edicts (dunestone ?tx) of None \<Rightarrow> [] | Some es \<Rightarrow> es).
             edict_output e \<le> length (pendingUtxos ?s)"
    by (simp add: ex_tx_def ex_transfer_def ex_engine_def ex_outputs_def)
  note t = pointer_sweep_complete [OF nc d, of "ex_storage [ex_dune]"]
  from t ne es obtain s' where r: "processEdicts ?s ?tx (ex_storage [ex_dune]) = Inr s'"
    by blast
  with t have "all_zero (UnallocatedDunes s')" by blast
  moreover have "list_all (\<lambda>e. edict_output e \<le> length (pendingUtxos ?s))
     [\<lparr> edict_id = ''840100:1'', edict_amount = 5, edict_output = 0 \<rparr>,
      \<lparr> edict_id = ''840100:1'', edict_amount = 0, edict_output = 1 \<rparr>]"
    by (simp add: ex_engine_def ex_outputs_def)
  ultimately show ?thesis using r nc d ne by blast
qed

section \<open>Scenarios 3 and 4 of the specification, run through \<open>processEdicts\<close>\<close>

lemmas eval_engine = processEdicts_def edicts_phase_def pointer_sweep_def pointerOutput_def
  nonOpReturnOutputs_def processEdict_def allocate_def findManyInFilter_Dune_def
  ex_engine_def ex_outputs_def ex_output_def ex_tx_def ex_transfer_def ex_storage_def
  balance_of_def Let_def signed_divide_int_def signed_modulo_int_def

lemma dune_id_of_840101_5: "dune_id_of 840101 5 = ''840101:5''"
  by (simp add: dune_id_of_def toString_bigint_def toString_nat.simps digit_char_def
      char_of_eq_iff)

lemma ex_dune_id: "dune_protocol_id ex_dune = ''840100:1''"
  by (simp add: ex_dune_def)

text \<open>
  Handed to \<open>processEdicts\<close> directly, the edict \<open>{amount: 0, output: 3}\<close> on three outputs
  splits 11 units into 6 and 5, and the edicts \<open>{amount: 5, output: 0}\<close>,
  \<open>{amount: 0, output: 1}\<close> split 7 units into 5 and 2; the sweep then finds nothing to move.
\<close>

lemma scenario_3_even_split:
  "(case processEdicts (ex_engine 11 ex_outputs)
           (ex_tx (ex_transfer
              (Some [\<lparr> edict_id = ''840100:1'', edict_amount = 0, edict_output = 3 \<rparr>]) None) [])
           (ex_storage [ex_dune]) of
      Inl e \<Rightarrow> False
    | Inr s' \<Rightarrow>
        map (\<lambda>u. balance_of u ''840100:1'') (pendingUtxos s') = [6, 5, 0] \<and>
        UnallocatedDunes s' = [(''840100:1'', 0)])"
  by (simp add: eval_engine ex_dune_id dune_id_of_840101_5)

lemma scenario_4_per_output_edicts:
  "(case processEdicts (ex_engine 7 ex_outputs)
           (ex_tx (ex_transfer
              (Some [\<lparr> edict_id = ''840100:1'', edict_amount = 5, edict_output = 0 \<rparr>,
                     \<lparr> edict_id = ''840100:1'', edict_amount = 0, edict_output = 1 \<rparr>]) None) [])
           (ex_storage [ex_dune]) of
      Inl e \<Rightarrow> False
    | Inr s' \<Rightarrow>
        map (\<lambda>u. balance_of u ''840100:1'') (pendingUtxos s') = [5, 2, 0] \<and>
        UnallocatedDunes s' = [(''840100:1'', 0)])"
  by (simp add: eval_engine ex_dune_id dune_id_of_840101_5)

section \<open>The mint cap\<close>

lemmas eval_ids = parseInt_string_def is_digit_def digits_value_def digit_val_def

lemma update_first_find:
  "find P xs = Some d \<Longrightarrow> set (update_first P f xs) \<subseteq> insert (f d) (set xs)"
  by (induction xs) (auto split: if_splits)

lemma find_key: "find P xs = Some d \<Longrightarrow> P d"
  by (auto simp add: find_Some_iff)

lemma processMint_dunes:
  assumes "processMint ipm U tx st = Inr (U', st')"
  shows "local_Dune st' = local_Dune st \<or>
     (\<exists>d. find (\<lambda>x. dune_protocol_id x = dune_protocol_id d) (local_Dune st) = Some d \<and>
          isMintOpen (block tx) (txIndex tx) d True \<and>
          local_Dune st' =
            update_first (\<lambda>x. dune_protocol_id x = dune_protocol_id d)
              (\<lambda>x. x\<lparr> mints := mints d + 1 \<rparr>) (local_Dune st))"
proof (cases "mint (dunestone tx)")
  case None
  then show ?thesis using assms by (simp add: processMint_def)
next
  case (Some m)
  show ?thesis
  proof (cases "findOne_Dune st m")
    case None
    then show ?thesis using assms Some by (simp add: processMint_def split: if_splits)
  next
    case d: (Some d)
    then have k: "dune_protocol_id d = m"
      using find_key [of "\<lambda>x. dune_protocol_id x = m" "local_Dune st" d]
      by (simp add: findOne_Dune_def)
    have f: "find (\<lambda>x. dune_protocol_id x = dune_protocol_id d) (local_Dune st) = Some d"
      using d k by (simp add: findOne_Dune_def)
    show ?thesis
      using assms Some d f
      by (auto simp add: processMint_def Let_def create_Event_def updateAttribute_Dune_mints_def
          split: if_splits option.splits sum.splits)
  qed
qed

lemma isMintOpen_cap_check:
  assumes "mint_cap D = Some cap" "cap \<noteq> 0" "mints D + 1 > cap"
  shows "\<not> isMintOpen blk txi D True"
  using assms by (simp add: isMintOpen_def Let_def)

lemma isMintOpen_cap:
  assumes "isMintOpen blk txi D True"
  shows "cap_respected (D\<lparr> mints := mints D + 1 \<rparr>)"
proof (cases "mint_cap D")
  case None
  then show ?thesis by (simp add: cap_respected_def)
next
  case (Some cap)
  show ?thesis
  proof (cases "cap \<noteq> 0 \<and> mints D + 1 > cap")
    case True
    then show ?thesis using isMintOpen_cap_check [of D cap blk txi] Some assms by simp
  next
    case False
    then show ?thesis using Some by (auto simp add: cap_respected_def)
  qed
qed

lemma processMint_cap:
  assumes inv: "\<forall>d\<in>set (local_Dune st). cap_respected d"
    and r: "processMint ipm U tx st = Inr (U', st')"
  shows "\<forall>d\<in>set (local_Dune st'). cap_respected d"
proof -
  from processMint_dunes [OF r] show ?thesis
  proof
    assume "local_Dune st' = local_Dune st"
    then show ?thesis using inv by simp
  next
    assume "\<exists>d. find (\<lambda>x. dune_protocol_id x = dune_protocol_id d) (local_Dune st) = Some d \<and>
          isMintOpen (block tx) (txIndex tx) d True \<and>
          local_Dune st' =
            update_first (\<lambda>x. dune_protocol_id x = dune_protocol_id d)
              (\<lambda>x. x\<lparr> mints := mints d + 1 \<rparr>) (local_Dune st)"
    then obtain d where f: "find (\<lambda>x. dune_protocol_id x = dune_protocol_id d) (local_Dune st) = Some d"
      and o: "isMintOpen (block tx) (txIndex tx) d True"
      and l: "local_Dune st' = update_first (\<lambda>x. dune_protocol_id x = dune_protocol_id d)
              (\<lambda>x. x\<lparr> mints := mints d + 1 \<rparr>) (local_Dune st)"
      by blast
    have "set (local_Dune st') \<subseteq> insert (d\<lparr> mints := mints d + 1 \<rparr>) (set (local_Dune st))"
      using update_first_find [OF f] l by simp
    then show ?thesis using inv isMintOpen_cap [OF o] by auto
  qed
qed

lemma processEtching_cap:
  assumes inv: "\<forall>d\<in>set (local_Dune st). cap_respected d"
    and nn: "etching_cap_nonneg (dunestone tx)"
  shows "\<forall>d\<in>set (local_Dune (snd (processEtching U tx st g))). cap_respected d"
  using inv nn
  by (auto simp add: processEtching_def etching_cap_nonneg_def Let_def findOrCreate_Address_def
      create_Dune_def create_Event_def cap_respected_def
      split: option.splits if_splits prod.splits)

lemma update_first_pointwise:
  assumes "\<forall>x\<in>set xs. Q x" and "\<And>x. Q x \<Longrightarrow> Q (f x)"
  shows "\<forall>x\<in>set (update_first P f xs). Q x"
  using assms by (induction xs) auto

lemma burn_each_cap:
  assumes "burn_each st b = Inr st'" and "\<forall>d\<in>set (local_Dune st). cap_respected d"
  shows "\<forall>d\<in>set (local_Dune st'). cap_respected d"
  using assms
proof (induction b arbitrary: st)
  case Nil
  then show ?case by simp
next
  case (Cons kv b)
  obtain k v where kv: "kv = (k, v)" by (cases kv)
  from Cons.prems kv obtain dune where f: "findOne_Dune st k = Some dune"
    and r: "burn_each (updateAttribute_Dune_burnt_amount st k (burnt_amount dune + v)) b = Inr st'"
    by (auto split: option.splits)
  have keep: "\<And>x. cap_respected x \<Longrightarrow> cap_respected (x\<lparr> burnt_amount := burnt_amount dune + v \<rparr>)"
    by (simp add: cap_respected_def split: option.splits)
  have "\<forall>d\<in>set (update_first (\<lambda>d. dune_protocol_id d = k)
                  (\<lambda>d. d\<lparr> burnt_amount := burnt_amount dune + v \<rparr>) (local_Dune st)).
          cap_respected d"
    using Cons.prems(2) keep by (rule update_first_pointwise)
  then have "\<forall>d\<in>set (local_Dune (updateAttribute_Dune_burnt_amount st k (burnt_amount dune + v))).
          cap_respected d"
    by (simp add: updateAttribute_Dune_burnt_amount_def)
  from Cons.IH [OF r this] show ?case .
qed

lemma burnAllFromUtxo_cap:
  assumes "burnAllFromUtxo utxo st = Inr st'" and "\<forall>d\<in>set (local_Dune st). cap_respected d"
  shows "\<forall>d\<in>set (local_Dune st'). cap_respected d"
  using assms burn_each_cap
  by (auto simp add: burnAllFromUtxo_def split: option.splits)

text \<open>
  Claim C1, amended. For every dune whose \<open>mint_cap\<close> is set and is not zero (flex or not):
  \<open>isMintOpen\<close> with \<open>offset = true\<close> is false whenever \<open>mints + 1 > mint_cap\<close>; when
  \<open>mints + 1 \<le> mint_cap\<close>, so also for the mint that lands on the cap, it answers what it
  answers for the same dune without a cap; and \<open>mints \<le> mint_cap\<close> is kept by the three
  functions through which a transaction writes a \<open>Dune\<close> row: \<open>processMint\<close>,
  \<open>processEtching\<close> (for a cap the decoder admits) and \<open>burnAllFromUtxo\<close>. A \<open>mint_cap\<close> of
  zero is read as no cap, by \<open>isMintOpen\<close> as by \<open>hasMintcap\<close> in \<open>processEtching\<close>.
\<close>

theorem mint_cap_enforced:
  "(mint_cap D = Some cap \<and> cap \<noteq> 0 \<and> mints D + 1 > cap \<longrightarrow> \<not> isMintOpen blk txi D True) \<and>
   (mint_cap D = Some cap \<and> mints D + 1 \<le> cap \<longrightarrow>
      isMintOpen blk txi D True = isMintOpen blk txi (D\<lparr> mint_cap := None \<rparr>) True) \<and>
   ((\<forall>d\<in>set (local_Dune st). cap_respected d) \<and> processMint ipm U tx st = Inr (U', st') \<longrightarrow>
      (\<forall>d\<in>set (local_Dune st'). cap_respected d)) \<and>
   ((\<forall>d\<in>set (local_Dune st). cap_respected d) \<and> etching_cap_nonneg (dunestone tx) \<longrightarrow>
      (\<forall>d\<in>set (local_Dune (snd (processEtching U tx st g))). cap_respected d)) \<and>
   ((\<forall>d\<in>set (local_Dune st). cap_respected d) \<and> burnAllFromUtxo utxo st = Inr st2 \<longrightarrow>
      (\<forall>d\<in>set (local_Dune st2). cap_respected d))"
proof (intro conjI impI)
  assume "mint_cap D = Some cap \<and> cap \<noteq> 0 \<and> mints D + 1 > cap"
  then show "\<not> isMintOpen blk txi D True"
    using isMintOpen_cap_check by blast
next
  assume "mint_cap D = Some cap \<and> mints D + 1 \<le> cap"
  then show "isMintOpen blk txi D True = isMintOpen blk txi (D\<lparr> mint_cap := None \<rparr>) True"
    by (simp add: isMintOpen_def Let_def)
next
  assume "(\<forall>d\<in>set (local_Dune st). cap_respected d) \<and> processMint ipm U tx st = Inr (U', st')"
  then show "\<forall>d\<in>set (local_Dune st'). cap_respected d"
    using processMint_cap by blast
next
  assume "(\<forall>d\<in>set (local_Dune st). cap_respected d) \<and> etching_cap_nonneg (dunestone tx)"
  then show "\<forall>d\<in>set (local_Dune (snd (processEtching U tx st g))). cap_respected d"
    using processEtching_cap by blast
next
  assume "(\<forall>d\<in>set (local_Dune st). cap_respected d) \<and> burnAllFromUtxo utxo st = Inr st2"
  then show "\<forall>d\<in>set (local_Dune st2). cap_respected d"
    using burnAllFromUtxo_cap by blast
qed


text \<open>The example dune at height 840101.\<close>

lemma isMintOpen_ex:
  "mint_cap D = mint_cap ex_dune \<or> mint_cap D = None \<or> mint_cap D = Some 0 \<Longrightarrow> mints D < 100 \<Longrightarrow>
   unmintable D = False \<Longrightarrow> dune_protocol_id D = ''840100:1'' \<Longrightarrow>
   mint_start D = None \<Longrightarrow> mint_end D = None \<Longrightarrow> mint_offset_start D = None \<Longrightarrow>
   mint_offset_end D = None \<Longrightarrow> isMintOpen 840101 5 D True"
  by (auto simp add: isMintOpen_def ex_dune_def eval_ids Let_def GENESIS_BLOCK_def)

lemma processMint_ex:
  "processMint (\<lambda>d t. True) [] (ex_tx (ex_mint False) []) (ex_storage [ex_dune\<lparr> mints := 99 \<rparr>]) =
     Inr ([(''840100:1'', 10)],
          \<lparr> local_Dune = [ex_dune\<lparr> mints := 100 \<rparr>],
            local_Address = local_Address (ex_storage []),
            local_Event = [ex_mint_event (Some 10)] \<rparr>)"
  using isMintOpen_ex [of "ex_dune\<lparr> mints := 99 \<rparr>"]
  by (simp add: processMint_def ex_tx_def ex_mint_def ex_storage_def findOne_Dune_def
      findOne_Address_def create_Event_def updateAttribute_Dune_mints_def updateUnallocated_def
      ex_mint_event_def Let_def) (simp add: ex_dune_def)

theorem mint_cap_enforced_witness:
  "mint_cap (ex_dune\<lparr> mints := 100 \<rparr>) = Some 100 \<and> (100::int) \<noteq> 0 \<and>
   mints (ex_dune\<lparr> mints := 100 \<rparr>) + 1 > 100 \<and>
   \<not> isMintOpen 840101 5 (ex_dune\<lparr> mints := 100 \<rparr>) True \<and>
   mint_cap (ex_dune\<lparr> mints := 99 \<rparr>) = Some 100 \<and> mints (ex_dune\<lparr> mints := 99 \<rparr>) + 1 \<le> 100 \<and>
   isMintOpen 840101 5 (ex_dune\<lparr> mints := 99 \<rparr>) True \<and>
   list_all cap_respected (local_Dune (ex_storage [ex_dune\<lparr> mints := 99 \<rparr>])) \<and>
   (case processMint (\<lambda>d t. True) [] (ex_tx (ex_mint False) [])
           (ex_storage [ex_dune\<lparr> mints := 99 \<rparr>]) of
      Inl e \<Rightarrow> False
    | Inr (U', st') \<Rightarrow> list_all cap_respected (local_Dune st') \<and> map mints (local_Dune st') = [100]) \<and>
   etching_cap_nonneg (dunestone (ex_tx (ex_etching ''WORLD'') [])) \<and>
   list_all cap_respected
     (local_Dune (snd (processEtching [] (ex_tx (ex_etching ''WORLD'') []) (ex_storage [ex_dune]) False))) \<and>
   burnAllFromUtxo ((ex_output 2 2)\<lparr> dune_balances := Some [(''840100:1'', 7)] \<rparr>)
       (ex_storage [ex_dune])
     = Inr (ex_storage [ex_dune\<lparr> burnt_amount := 7 \<rparr>]) \<and>
   list_all cap_respected (local_Dune (ex_storage [ex_dune\<lparr> burnt_amount := 7 \<rparr>]))"
proof -
  let ?D1 = "ex_dune\<lparr> mints := 100 \<rparr>" and ?D2 = "ex_dune\<lparr> mints := 99 \<rparr>"
  let ?st = "ex_storage [?D2]"
  let ?st' = "\<lparr> local_Dune = [ex_dune\<lparr> mints := 100 \<rparr>],
            local_Address = local_Address (ex_storage []),
            local_Event = [ex_mint_event (Some 10)] \<rparr>"
  have a1: "mint_cap ?D1 = Some 100 \<and> (100::int) \<noteq> 0 \<and> mints ?D1 + 1 > 100"
    by (simp add: ex_dune_def)
  have a2: "mint_cap ?D2 = Some 100 \<and> mints ?D2 + 1 \<le> 100" by (simp add: ex_dune_def)
  have c0: "cap_respected ex_dune" by (simp add: cap_respected_def ex_dune_def)
  have c2: "cap_respected ?D2" by (simp add: cap_respected_def ex_dune_def)
  have a3: "\<forall>d\<in>set (local_Dune ?st). cap_respected d" using c2 by (simp add: ex_storage_def)
  have a4: "\<forall>d\<in>set (local_Dune (ex_storage [ex_dune])). cap_respected d"
    using c0 by (simp add: ex_storage_def)
  have a5: "etching_cap_nonneg (dunestone (ex_tx (ex_etching ''WORLD'') []))"
    by (simp add: etching_cap_nonneg_def ex_tx_def ex_etching_def)
  have open2: "isMintOpen 840101 5 (?D2\<lparr> mint_cap := None \<rparr>) True"
    by (rule isMintOpen_ex) (simp_all add: ex_dune_def)
  from mint_cap_enforced [where D = ?D1 and cap = 100 and blk = 840101 and txi = 5] a1
  have r1: "\<not> isMintOpen 840101 5 ?D1 True" by blast
  from mint_cap_enforced [where D = ?D2 and cap = 100 and blk = 840101 and txi = 5] a2 open2
  have r2: "isMintOpen 840101 5 ?D2 True" by blast
  from mint_cap_enforced [where st = ?st and ipm = "\<lambda>d t. True" and U = "[]"
      and tx = "ex_tx (ex_mint False) []" and U' = "[(''840100:1'', 10)]" and st' = ?st']
    a3 processMint_ex
  have r3: "\<forall>d\<in>set (local_Dune ?st'). cap_respected d" by blast
  from mint_cap_enforced [where st = "ex_storage [ex_dune]" and U = "[]"
      and tx = "ex_tx (ex_etching ''WORLD'') []" and g = False] a4 a5
  have r4: "\<forall>d\<in>set (local_Dune (snd (processEtching [] (ex_tx (ex_etching ''WORLD'') [])
                (ex_storage [ex_dune]) False))). cap_respected d" by blast
  have b: "burnAllFromUtxo ((ex_output 2 2)\<lparr> dune_balances := Some [(''840100:1'', 7)] \<rparr>)
       (ex_storage [ex_dune])
     = Inr (ex_storage [ex_dune\<lparr> burnt_amount := 7 \<rparr>])"
    by (simp add: burnAllFromUtxo_def ex_output_def ex_storage_def findOne_Dune_def
        updateAttribute_Dune_burnt_amount_def ex_dune_def)
  from mint_cap_enforced [where st = "ex_storage [ex_dune]"
      and utxo = "(ex_output 2 2)\<lparr> dune_balances := Some [(''840100:1'', 7)] \<rparr>"
      and ?st2.0 = "ex_storage [ex_dune\<lparr> burnt_amount := 7 \<rparr>]"] a4 b
  have r5: "\<forall>d\<in>set (local_Dune (ex_storage [ex_dune\<lparr> burnt_amount := 7 \<rparr>])). cap_respected d"
    by blast
  have m: "map mints (local_Dune ?st') = [100]" by simp
  show ?thesis
    using a1 a2 r1 r2 a3 r3 a5 r4 m b r5
    by (simp add: processMint_ex list_all_iff)
qed

text \<open>
  Claim C1 as stated fails for a cap that is set to zero: the dune is not flex, \<open>mints + 1\<close>
  exceeds the cap, \<open>isMintOpen\<close> is true and \<open>processMint\<close> leaves \<open>mints = 1 > 0 = mint_cap\<close>.
\<close>

theorem mint_cap_zero_counterexample:
  "mint_cap (ex_dune\<lparr> mint_cap := Some 0 \<rparr>) = Some 0 \<and>
   price_amount (ex_dune\<lparr> mint_cap := Some 0 \<rparr>) = None \<and>
   mints (ex_dune\<lparr> mint_cap := Some 0 \<rparr>) + 1 > 0 \<and>
   isMintOpen 840101 5 (ex_dune\<lparr> mint_cap := Some 0 \<rparr>) True \<and>
   (case processMint (\<lambda>d t. True) [] (ex_tx (ex_mint False) [])
           (ex_storage [ex_dune\<lparr> mint_cap := Some 0 \<rparr>]) of
      Inl e \<Rightarrow> False
    | Inr (U', st') \<Rightarrow> map (\<lambda>d. (mint_cap d, mints d)) (local_Dune st') = [(Some 0, 1)])"
proof -
  have o: "isMintOpen 840101 5 (ex_dune\<lparr> mint_cap := Some 0 \<rparr>) True"
    by (rule isMintOpen_ex) (simp_all add: ex_dune_def)
  then show ?thesis
    by (simp add: processMint_def ex_tx_def ex_mint_def ex_storage_def findOne_Dune_def
      findOne_Address_def create_Event_def updateAttribute_Dune_mints_def updateUnallocated_def
      Let_def) (simp add: ex_dune_def)
qed


section \<open>The double model\<close>

lemma bit_length_eval:
  "bit_length (numeral k) = Suc (bit_length (numeral k div 2))"
  "bit_length 0 = 0" "bit_length (Suc 0) = Suc 0"
  by (simp_all add: bit_length.simps)

lemma bit_length_less: "n < 2 ^ bit_length n"
proof (induction n rule: bit_length.induct)
  case (1 n)
  show ?case
  proof (cases "n = 0")
    case True
    then show ?thesis by (simp add: bit_length.simps)
  next
    case False
    then have "n div 2 < 2 ^ bit_length (n div 2)" using 1 by simp
    then have "n < 2 * 2 ^ bit_length (n div 2)" by linarith
    then show ?thesis using False by (simp add: bit_length.simps [of n])
  qed
qed

lemma bit_length_le: "n < 2 ^ k \<Longrightarrow> bit_length n \<le> k"
proof (induction k arbitrary: n)
  case 0
  then show ?case by (simp add: bit_length.simps)
next
  case (Suc k)
  show ?case
  proof (cases "n = 0")
    case True
    then show ?thesis by (simp add: bit_length.simps)
  next
    case False
    have "n div 2 < 2 ^ k" using Suc.prems by simp
    then have "bit_length (n div 2) \<le> k" by (rule Suc.IH)
    then show ?thesis using False by (simp add: bit_length.simps [of n])
  qed
qed

lemma bit_length_ge: "n \<noteq> 0 \<Longrightarrow> 2 ^ (bit_length n - 1) \<le> n"
proof (induction n rule: bit_length.induct)
  case (1 n)
  show ?case
  proof (cases "n div 2 = 0")
    case True
    then show ?thesis using 1(2) by (simp add: bit_length.simps [of n] bit_length.simps [of 0])
  next
    case False
    then have "2 ^ (bit_length (n div 2) - 1) \<le> n div 2" using 1 by simp
    moreover have "bit_length (n div 2) \<noteq> 0" using False by (simp add: bit_length.simps [of "n div 2"])
    ultimately have "2 ^ bit_length (n div 2) \<le> 2 * (n div 2)"
      by (cases "bit_length (n div 2)") simp_all
    then have "2 ^ bit_length (n div 2) \<le> n" by linarith
    then show ?thesis using 1(2) by (simp add: bit_length.simps [of n])
  qed
qed

text \<open>A number that is a double already is not changed by the rounding.\<close>

lemma round_to_double_exact:
  assumes "\<bar>M\<bar> < 2 ^ 53" and "E \<le> 971"
  shows "round_to_double M E = Finite M E"
proof -
  have "nat \<bar>M\<bar> < 2 ^ 53" using assms(1) by (simp add: nat_less_iff)
  then have n: "bit_length (nat \<bar>M\<bar>) \<le> 53" by (rule bit_length_le)
  have "sgn M * \<bar>M\<bar> = M" by (simp add: mult_sgn_abs)
  then show ?thesis using n assms(2) by (simp add: round_to_double_def Let_def)
qed

text \<open>
  The rounding keeps at most 53 binary digits and moves the number by at most half a unit
  of the last digit kept.
\<close>

lemma round_to_double_nearest:
  assumes "round_to_double M E = Finite m e"
  shows "E \<le> e \<and> \<bar>m\<bar> \<le> 2 ^ 53 \<and> 2 * \<bar>m * 2 ^ nat (e - E) - M\<bar> \<le> 2 ^ nat (e - E)"
proof -
  define n where "n = bit_length (nat \<bar>M\<bar>)"
  define s where "s = n - 53"
  define q where "q = \<bar>M\<bar> div 2 ^ s"
  define r where "r = \<bar>M\<bar> mod 2 ^ s"
  define q' where "q' = (if 2 * r > 2 ^ s \<or> (2 * r = 2 ^ s \<and> odd q) then q + 1 else q)"
  have "round_to_double M E =
          (if int (bit_length (nat q')) + E + int s > 1024 then NotFinite
           else Finite (sgn M * q') (E + int s))"
    unfolding round_to_double_def Let_def q'_def r_def q_def s_def n_def by (rule refl)
  then have res: "m = sgn M * q'" "e = E + int s"
    using assms by (simp_all split: if_splits)
  have r: "0 \<le> r" "r < 2 ^ s" by (simp_all add: r_def)
  have M: "\<bar>M\<bar> = q * 2 ^ s + r" unfolding q_def r_def by (rule div_mult_mod_eq [symmetric])
  have q0: "0 \<le> q" by (simp add: q_def pos_imp_zdiv_nonneg_iff)
  have "nat \<bar>M\<bar> < 2 ^ n" unfolding n_def by (rule bit_length_less)
  then have "\<bar>M\<bar> < 2 ^ n" by (simp add: nat_less_iff)
  moreover have "n \<le> s + 53" by (simp add: s_def)
  then have "(2::int) ^ n \<le> 2 ^ (s + 53)" by (rule power_increasing) simp
  ultimately have "\<bar>M\<bar> < 2 ^ 53 * 2 ^ s" by (simp add: power_add mult.commute)
  moreover have "q * 2 ^ s \<le> \<bar>M\<bar>" using M r by linarith
  ultimately have "q * 2 ^ s < 2 ^ 53 * 2 ^ s" by linarith
  then have "q < 2 ^ 53" by (simp add: mult_less_cancel_right)
  then have q53: "q' \<le> 2 ^ 53" by (simp add: q'_def)
  have q'0: "0 \<le> q'" using q0 by (simp add: q'_def)
  have near: "2 * \<bar>q' * 2 ^ s - \<bar>M\<bar>\<bar> \<le> 2 ^ s"
  proof (cases "2 * r > 2 ^ s \<or> (2 * r = 2 ^ s \<and> odd q)")
    case True
    then have "q' * 2 ^ s - \<bar>M\<bar> = 2 ^ s - r" by (simp add: q'_def M algebra_simps)
    then show ?thesis using True r by auto
  next
    case False
    then have "q' * 2 ^ s - \<bar>M\<bar> = - r" by (simp add: q'_def M)
    then show ?thesis using False r by auto
  qed
  have "sgn M * (q' * 2 ^ s - \<bar>M\<bar>) = sgn M * q' * 2 ^ s - sgn M * \<bar>M\<bar>"
    by (simp add: right_diff_distrib)
  then have "m * 2 ^ s - M = sgn M * (q' * 2 ^ s - \<bar>M\<bar>)"
    by (simp only: res mult_sgn_abs)
  then have "\<bar>m * 2 ^ s - M\<bar> \<le> \<bar>q' * 2 ^ s - \<bar>M\<bar>\<bar>"
    by (simp add: abs_mult abs_sgn_eq)
  then have "2 * \<bar>m * 2 ^ s - M\<bar> \<le> 2 * \<bar>q' * 2 ^ s - \<bar>M\<bar>\<bar>" by simp
  then have "2 * \<bar>m * 2 ^ s - M\<bar> \<le> 2 ^ s" using near by (rule order_trans)
  moreover have "\<bar>m\<bar> \<le> 2 ^ 53"
    using q53 q'0 by (simp add: res abs_mult abs_sgn_eq)
  ultimately show ?thesis by (simp add: res)
qed

text \<open>
  The amounts of the examples are the doubles nearest to their decimal numbers: the
  significand \<open>m\<close> has exactly 53 binary digits, and \<open>m * 2^e\<close> lies within half a unit of the
  last digit, \<open>2^e / 2\<close>, of \<open>sats / 10^8\<close>.
\<close>

lemma example_amounts:
  "btc_0_00000546 = Finite m e \<Longrightarrow>
     2 ^ 52 \<le> m \<and> m < 2 ^ 53 \<and> \<bar>10 ^ 8 * m - 546 * 2 ^ nat (- e)\<bar> * 2 \<le> 10 ^ 8"
  "btc_0_000045 = Finite m e \<Longrightarrow>
     2 ^ 52 \<le> m \<and> m < 2 ^ 53 \<and> \<bar>10 ^ 8 * m - 4500 * 2 ^ nat (- e)\<bar> * 2 \<le> 10 ^ 8"
  "btc_0_58 = Finite m e \<Longrightarrow>
     2 ^ 52 \<le> m \<and> m < 2 ^ 53 \<and> \<bar>10 ^ 8 * m - 58000000 * 2 ^ nat (- e)\<bar> * 2 \<le> 10 ^ 8"
  by (auto simp add: btc_0_00000546_def btc_0_000045_def btc_0_58_def)

lemma sats_of_examples:
  "sats_floor btc_0 = Inr 0" "sats_round btc_0 = Inr 0"
  "sats_floor btc_0_00000546 = Inr 546" "sats_round btc_0_00000546 = Inr 546"
  "sats_floor btc_0_000045 = Inr 4500" "sats_round btc_0_000045 = Inr 4500"
  by (simp_all add: sats_floor_def sats_round_def btc_0_def btc_0_00000546_def
      btc_0_000045_def times_1e8_def round_to_double_def Let_def bit_length_eval
      Math_floor_def Math_round_def BigInt_number_def)

lemma times_1e8_btc_0_58: "times_1e8 btc_0_58 = Finite 7784628223999999 (- 27)"
  by (simp add: btc_0_58_def times_1e8_def round_to_double_def Let_def bit_length_eval)

lemma sats_of_btc_0_58:
  "sats_floor btc_0_58 = Inr 57999999" "sats_round btc_0_58 = Inr 58000000"
  by (simp_all add: sats_floor_def sats_round_def times_1e8_btc_0_58 Math_floor_def
      Math_round_def BigInt_number_def)


section \<open>Minting a flex dune\<close>

text \<open>A positive quotient of the truncating division is the floor of the exact quotient.\<close>

lemma sdiv_pos_floor:
  assumes "0 < (t::int) sdiv p"
  shows "t sdiv p = t div p"
proof -
  have "sgn t = sgn p"
  proof (rule ccontr)
    assume n: "sgn t \<noteq> sgn p"
    have "sgn t * sgn p \<le> 0"
      using n
      by (cases "t < 0"; cases "t = 0"; cases "p < 0"; cases "p = 0") (auto simp add: sgn_if)
    moreover have "0 \<le> \<bar>t\<bar> div \<bar>p\<bar>"
      by (simp add: pos_imp_zdiv_nonneg_iff div_int_pos_iff)
    ultimately have "t sdiv p \<le> 0"
      by (simp add: signed_divide_int_def mult_nonpos_nonneg)
    then show False using assms by simp
  qed
  then show ?thesis by (simp add: signed_divide_int_eq_divide_int)
qed

lemma map_of_updateUnallocated:
  "map_of (updateUnallocated U k a) k = Some ((case map_of U k of None \<Rightarrow> 0 | Some v \<Rightarrow> v) + a)"
  by (simp add: updateUnallocated_def update_conv')

lemma ex_flex_dune_fields:
  "dune_protocol_id (ex_flex_dune p) = ''840100:1''" "price_amount (ex_flex_dune p) = Some p"
  "price_pay_to (ex_flex_dune p) = Some ''bc1qpay''" "mint_amount (ex_flex_dune p) = Some 0"
  "mints (ex_flex_dune p) = 0" "row_id (ex_flex_dune p) = 1"
  by (simp_all add: ex_flex_dune_def ex_dune_def)

text \<open>
  A mint of a flex dune that passes the guards and whose quotient is positive: the
  unallocated bag is credited the floor of (the sum of \<open>sats_floor\<close> over the outputs paying
  \<open>price_pay_to\<close>) by \<open>price_amount\<close>, \<open>mints\<close> goes up by one, and the \<open>MINT\<close> event carries the
  row's \<open>mint_amount\<close>, not the amount credited.
\<close>

lemma processMint_flex:
  assumes "mint (dunestone tx) = Some m" and "m \<noteq> []" and "findOne_Dune st m = Some d"
    and "isPriceTermsMet d tx" and "isMintOpen (block tx) (txIndex tx) d True"
    and "\<not> cenotaph (dunestone tx)"
    and "price_amount d = Some priceAmount" and "priceAmount \<noteq> 0"
    and "price_pay_to d = Some payTo" and "payTo \<noteq> []"
    and "map_sats_floor (filter (\<lambda>v. spk_address v = Some payTo) (vout tx)) = Inr paid"
    and "0 < sum_list paid sdiv priceAmount"
    and "findOne_Address st (case sender tx of None \<Rightarrow> ''UNKNOWN'' | Some a \<Rightarrow> a)
           = Some fromAddress"
  shows "processMint isPriceTermsMet U tx st =
      Inr (updateUnallocated U (dune_protocol_id d) (sum_list paid div priceAmount),
           updateAttribute_Dune_mints
             (create_Event st
                \<lparr> event_type = 1, event_block = block tx, event_transaction_id = virtual_id tx,
                  event_dune_id = row_id d, event_amount = mint_amount d,
                  from_address_id = address_row_id fromAddress, to_address_id = 2 \<rparr>)
             (dune_protocol_id d) (mints d + 1))"
proof -
  have sd: "sum_list paid sdiv priceAmount = sum_list paid div priceAmount"
    using assms(12) by (rule sdiv_pos_floor)
  then have pos: "\<not> (sum_list paid div priceAmount \<le> 0)" using assms(12) by simp
  show ?thesis
    using assms(1-11,13) by (simp add: processMint_def Let_def sd pos)
qed

lemma map_sats_floor_ex:
  "sats_floor btc = Inr n \<Longrightarrow>
   map_sats_floor (filter (\<lambda>v. spk_address v = Some ''bc1qpay'') (vout (ex_flex_tx btc))) = Inr [n]"
  by (simp add: ex_flex_tx_def ex_tx_def ex_vout_def)

lemma processMint_flex_ex:
  assumes "sats_floor btc = Inr n" and "0 < n sdiv price" and "price \<noteq> 0"
  shows "processMint isPriceTermsMet [] (ex_flex_tx btc) (ex_storage [ex_flex_dune price]) =
     (if isPriceTermsMet (ex_flex_dune price) (ex_flex_tx btc)
      then Inr ([(''840100:1'', n div price)],
                \<lparr> local_Dune = [(ex_flex_dune price)\<lparr> mints := 1 \<rparr>],
                  local_Address = local_Address (ex_storage []),
                  local_Event = [ex_mint_event (Some 0)] \<rparr>)
      else Inr ([], ex_storage [ex_flex_dune price]))"
proof (cases "isPriceTermsMet (ex_flex_dune price) (ex_flex_tx btc)")
  case False
  then show ?thesis
    by (simp add: processMint_def ex_flex_tx_def ex_tx_def ex_mint_def ex_storage_def
        findOne_Dune_def ex_flex_dune_fields)
next
  case True
  let ?from = "\<lparr> address_key = ''bc1qsender'', address_row_id = 4,
                 address = Some ''bc1qsender'' \<rparr>"
  have h1: "mint (dunestone (ex_flex_tx btc)) = Some ''840100:1''"
    by (simp add: ex_flex_tx_def ex_tx_def ex_mint_def)
  have h2: "findOne_Dune (ex_storage [ex_flex_dune price]) ''840100:1'' = Some (ex_flex_dune price)"
    by (simp add: findOne_Dune_def ex_storage_def ex_flex_dune_fields)
  have "isMintOpen 840101 5 (ex_flex_dune price) True"
    by (rule isMintOpen_ex) (simp_all add: ex_flex_dune_def ex_dune_def)
  then have h3: "isMintOpen (block (ex_flex_tx btc)) (txIndex (ex_flex_tx btc))
                   (ex_flex_dune price) True"
    by (simp add: ex_flex_tx_def ex_tx_def)
  have h4: "\<not> cenotaph (dunestone (ex_flex_tx btc))"
    by (simp add: ex_flex_tx_def ex_tx_def ex_mint_def)
  have h5: "findOne_Address (ex_storage [ex_flex_dune price])
              (case sender (ex_flex_tx btc) of None \<Rightarrow> ''UNKNOWN'' | Some a \<Rightarrow> a) = Some ?from"
    by (simp add: findOne_Address_def ex_storage_def ex_flex_tx_def ex_tx_def)
  have h6: "0 < sum_list [n] sdiv price" using assms(2) by simp
  have "processMint isPriceTermsMet [] (ex_flex_tx btc) (ex_storage [ex_flex_dune price]) =
      Inr (updateUnallocated [] (dune_protocol_id (ex_flex_dune price)) (sum_list [n] div price),
           updateAttribute_Dune_mints
             (create_Event (ex_storage [ex_flex_dune price])
                \<lparr> event_type = 1, event_block = block (ex_flex_tx btc),
                  event_transaction_id = virtual_id (ex_flex_tx btc),
                  event_dune_id = row_id (ex_flex_dune price),
                  event_amount = mint_amount (ex_flex_dune price),
                  from_address_id = address_row_id ?from, to_address_id = 2 \<rparr>)
             (dune_protocol_id (ex_flex_dune price)) (mints (ex_flex_dune price) + 1))"
  proof (rule processMint_flex [where m = "''840100:1''" and payTo = "''bc1qpay''"
        and priceAmount = price and paid = "[n]"])
    show "map_sats_floor (filter (\<lambda>v. spk_address v = Some ''bc1qpay'') (vout (ex_flex_tx btc)))
            = Inr [n]"
      using assms(1) by (rule map_sats_floor_ex)
  qed (use h1 h2 True h3 h4 h5 h6 assms(3) in \<open>simp_all add: ex_flex_dune_fields\<close>)
  then show ?thesis
    using True
    by (simp add: ex_flex_dune_fields updateUnallocated_def updateAttribute_Dune_mints_def
        create_Event_def ex_storage_def ex_mint_event_def ex_flex_tx_def ex_tx_def)
qed

text \<open>
  Scenario 6 of the specification: price 1000, one output of 0.000045 BTC (4500 sats) to the
  address. 4 units are credited and the event says 0.
\<close>

lemma scenario_6_flex_mint:
  "processMint (\<lambda>d t. True) [] (ex_flex_tx btc_0_000045) (ex_storage [ex_flex_dune 1000]) =
     Inr ([(''840100:1'', 4)],
          \<lparr> local_Dune = [(ex_flex_dune 1000)\<lparr> mints := 1 \<rparr>],
            local_Address = local_Address (ex_storage []),
            local_Event = [ex_mint_event (Some 0)] \<rparr>)"
  using processMint_flex_ex [OF sats_of_examples(5), where price = 1000
      and isPriceTermsMet = "\<lambda>d t. True"]
  by (simp add: signed_divide_int_def)

text \<open>
  Claim C10. The amount credited by a mint of a flex dune is not always
  \<open>floor(total sats paid to price_pay_to / price_amount)\<close>: \<open>processMint\<close> reads a payment as
  \<open>Math.floor(v.value * 1e8)\<close>, and the product of doubles can fall just below the integer. An
  output of 0.58 BTC (the double nearest to 0.58) is 58000000 sats, which is also what
  \<open>createNewUtxoBodies\<close> stores for it with \<open>Math.round\<close>; \<open>0.58 * 1e8\<close> is the double
  \<open>57999999.99999999\<close>, whose floor is 57999999, so at the price 29000000
  the mint is credited \<open>floor(57999999 / 29000000) = 1\<close> unit where
  \<open>floor(58000000 / 29000000) = 2\<close>, whatever the price terms check is, unless it refuses the
  mint. The \<open>MINT\<close> event records the row's \<open>mint_amount\<close>, which is 0.
\<close>

theorem flex_mint_credit_below_sats_paid:
  "btc_0_58 = Finite 5224175567749775 (- 53) \<and>
   (2 :: int) ^ 52 \<le> 5224175567749775 \<and> (5224175567749775 :: int) < 2 ^ 53 \<and>
   \<bar>(10 ^ 8 * 5224175567749775 - 58000000 * 2 ^ 53 :: int)\<bar> * 2 \<le> 10 ^ 8 \<and>
   sats_round btc_0_58 = Inr 58000000 \<and>
   sats_floor btc_0_58 = Inr 57999999 \<and>
   (58000000 :: int) div 29000000 = 2 \<and>
   (\<forall>isPriceTermsMet.
      processMint isPriceTermsMet [] (ex_flex_tx btc_0_58) (ex_storage [ex_flex_dune 29000000]) =
        (if isPriceTermsMet (ex_flex_dune 29000000) (ex_flex_tx btc_0_58)
         then Inr ([(''840100:1'', 1)],
                   \<lparr> local_Dune = [(ex_flex_dune 29000000)\<lparr> mints := 1 \<rparr>],
                     local_Address = local_Address (ex_storage []),
                     local_Event = [ex_mint_event (Some 0)] \<rparr>)
         else Inr ([], ex_storage [ex_flex_dune 29000000])))"
proof -
  have "\<And>ipm. processMint ipm [] (ex_flex_tx btc_0_58) (ex_storage [ex_flex_dune 29000000]) =
        (if ipm (ex_flex_dune 29000000) (ex_flex_tx btc_0_58)
         then Inr ([(''840100:1'', 1)],
                   \<lparr> local_Dune = [(ex_flex_dune 29000000)\<lparr> mints := 1 \<rparr>],
                     local_Address = local_Address (ex_storage []),
                     local_Event = [ex_mint_event (Some 0)] \<rparr>)
         else Inr ([], ex_storage [ex_flex_dune 29000000]))"
    using processMint_flex_ex [OF sats_of_btc_0_58(1), where price = 29000000]
    by (simp add: signed_divide_int_def)
  moreover have "btc_0_58 = Finite 5224175567749775 (- 53)" by (simp add: btc_0_58_def)
  moreover have "\<bar>(10 ^ 8 * 5224175567749775 - 58000000 * 2 ^ 53 :: int)\<bar> * 2 \<le> 10 ^ 8"
    by simp
  moreover have "(58000000 :: int) div 29000000 = 2" by simp
  moreover have "(2 :: int) ^ 52 \<le> 5224175567749775" "(5224175567749775 :: int) < 2 ^ 53"
    by simp_all
  ultimately show ?thesis
    using sats_of_btc_0_58 by blast
qed

section \<open>Where the engine departs from the specification\<close>

lemma decipher_output_at_count:
  assumes "find (\<lambda>v. spk_type v = Some ''nulldata'' \<or>
                     (case spk_asm v of None \<Rightarrow> False | Some a \<Rightarrow> startsWith a ''OP_RETURN''))
             tx_vout = Some op"
    and "e \<in> set es" and "edict_output e = length tx_vout"
  shows "decipher tx_vout (Some \<lparr> p_edicts = Some es, p_etching = et, p_mint = m, p_pointer = p \<rparr>)
         = no_dunestone True"
proof -
  have "int (edict_output e) > int (length tx_vout) - 1" using assms(3) by simp
  then have "badOutput es (length tx_vout)"
    using assms(2) by (auto simp add: badOutput_def list_ex_iff)
  then show ?thesis using assms(1) by (simp add: decipher_def)
qed

text \<open>
  Claim C3. The decoder's test is \<open>e.output > voutLen - 1\<close>: an edict whose output equals the
  number of outputs makes the dunestone a cenotaph. Scenario 3 of the specification (three
  outputs, one edict with \<open>output = 3\<close>) is decoded as a cenotaph, so the branch of
  \<open>processEdicts\<close> for \<open>edict.output === pendingUtxos.length\<close> is never reached from the decoder.
\<close>

theorem decipher_output_equal_to_vout_count:
  "decipher [ex_vout None btc_0, ex_vout (Some ''bc1qa'') btc_0_00000546,
             ex_vout (Some ''bc1qb'') btc_0_00000546]
     (Some \<lparr> p_edicts = Some [\<lparr> edict_id = ''840100:1'', edict_amount = 0, edict_output = 3 \<rparr>],
             p_etching = None, p_mint = None, p_pointer = None \<rparr>)
   = no_dunestone True"
  by (simp add: decipher_def ex_vout_def badOutput_def)


text \<open>Every cenotaph that \<open>decipher\<close> returns is the bare \<open>{cenotaph: true}\<close>: its mint is gone.\<close>

lemma decipher_cenotaph_bare:
  assumes "cenotaph (decipher tx_vout parsed)"
  shows "decipher tx_vout parsed = no_dunestone True"
proof (cases "find (\<lambda>v. spk_type v = Some ''nulldata'' \<or>
                     (case spk_asm v of None \<Rightarrow> False | Some a \<Rightarrow> startsWith a ''OP_RETURN''))
             tx_vout")
  case None
  then have "decipher tx_vout parsed = no_dunestone False" by (simp add: decipher_def)
  then show ?thesis using assms by (simp add: no_dunestone_def)
next
  case op: (Some op)
  show ?thesis
  proof (cases parsed)
    case None
    then show ?thesis using op by (simp add: decipher_def)
  next
    case (Some dune)
    show ?thesis
    proof (cases "case p_edicts dune of
                    None \<Rightarrow> False
                  | Some es \<Rightarrow> badOutput es (length tx_vout) \<or> badZeroDune es")
      case True
      then show ?thesis using op Some by (simp add: decipher_def)
    next
      case False
      then have "\<not> cenotaph (decipher tx_vout parsed)"
        using op Some by (simp add: decipher_def)
      then show ?thesis using assms by simp
    qed
  qed
qed


lemma processEtching_any_length:
  assumes "etching (dunestone tx) = Some e"
    and "findOne_Dune st (dune_id_of (block tx) (txIndex tx)) = None"
    and "findOne_Dune_REF_name st (etching_dune e) = None"
    and "etching_terms e = Some t" and "terms_amount t \<noteq> 0"
  shows "\<exists>d. local_Dune (snd (processEtching U tx st False)) = local_Dune st @ [d] \<and>
             name d = etching_dune e \<and> mints d = 0"
  using assms
  by (simp add: processEtching_def Let_def findOrCreate_Address_def create_Dune_def
      create_Event_def split: option.splits prod.splits)

text \<open>
  Claim C7. \<open>processEtching\<close> of the TypeScript indexer imports \<open>minimumLengthAtHeight\<close> and never calls
  it: at height 840101 the minimum length is 13, and the etching of the two-letter name
  \<open>AB\<close> creates the dune and adds its premine to the unallocated bag. \<open>processEtching\<close> of
  \<open>indexer.js\<close> makes the test.
\<close>

theorem processEtching_accepts_short_name:
  "minimumLengthAtHeight 840101 = 13 \<and> int (length ''AB'') < 13 \<and>
   map name (local_Dune (snd (processEtching [] (ex_tx (ex_etching ''AB'') []) (ex_storage []) False)))
     = [''AB''] \<and>
   fst (processEtching [] (ex_tx (ex_etching ''AB'') []) (ex_storage []) False)
     = [(''840101:5'', 1000)]"
  by (simp add: minimumLengthAtHeight_def GENESIS_BLOCK_def UNLOCK_INTERVAL_def
      INITIAL_AVAILABLE_def processEtching_def ex_tx_def ex_etching_def ex_storage_def
      findOne_Dune_def findOne_Dune_REF_name_def findOrCreate_Address_def findOne_Address_def
      create_Dune_def create_Event_def Let_def isSafeChar_def updateUnallocated_def
      dune_id_of_840101_5 fresh_id_def)

lemma pointerOutput_zero: "pointerOutput (Some 0) pending = pointerOutput None pending"
  by (simp add: pointerOutput_def)

text \<open>
  Claim C8. \<open>pointer ? ... : ...\<close> treats the pointer \<open>0\<close> as absent. With the \<open>OP_RETURN\<close> as
  output 0, an address as output 1 and \<open>pointer = 0\<close> (set, and the index of an output), the
  residue of 7 units goes to output 1 and is recorded as a transfer to its address; output
  0 receives nothing.
\<close>

theorem pointer_zero_is_not_followed:
  "pointerOutput (Some 0) [ex_output 2 0, ex_output 10 1] = Some 1 \<and>
   (case processEdicts (ex_engine 7 [ex_output 2 0, ex_output 10 1])
           (ex_tx (ex_transfer None (Some 0)) []) (ex_storage [ex_dune]) of
      Inl e \<Rightarrow> False
    | Inr s' \<Rightarrow>
        map (\<lambda>u. balance_of u ''840100:1'') (pendingUtxos s') = [0, 7] \<and>
        transfers s' = [(Addr 10, [(''840100:1'', 7)])])"
  by (simp add: pointerOutput_def nonOpReturnOutputs_def ex_output_def Let_def processEdicts_def
      edicts_phase_def pointer_sweep_def allocate_def ex_engine_def ex_tx_def ex_transfer_def
      balance_of_def)

end
